theory Spec2Isabelle
  imports Complex_Main "HOL-Library.Multiset"
begin

section \<open>Conventions of the embedding\<close>

text \<open>
  The analytics pipeline is written in TypeScript. Its \<^verbatim>\<open>number\<close> values that carry
  quantities (token amounts, SOL amounts, prices, PnL) are modelled as \<^typ>\<open>real\<close>: every
  result below is about exact arithmetic, not about IEEE doubles. Unix-second timestamps
  are \<^typ>\<open>int\<close>, counters are \<^typ>\<open>nat\<close>.

  A JavaScript \<^verbatim>\<open>Map\<close> iterates in insertion order and \<^verbatim>\<open>set\<close> on an existing key keeps
  the key's place; it is modelled as an association list with exactly that behaviour.
  An optional field (\<^verbatim>\<open>undefined\<close> or \<^verbatim>\<open>null\<close>) is an \<^typ>\<open>'a option\<close>; an absent array
  (\<^verbatim>\<open>xs || []\<close>) is the empty list; a falsy string is \<^term>\<open>[] :: string\<close>.
  The relational store is a record of tables, threaded through every operation that
  reads or writes it; the clock (\<^verbatim>\<open>Date.now()\<close>) is a parameter.
\<close>

subsection \<open>JavaScript Map as an insertion-ordered association list\<close>

fun mapSet :: "'k \<Rightarrow> 'v \<Rightarrow> ('k \<times> 'v) list \<Rightarrow> ('k \<times> 'v) list" where
  "mapSet k v [] = [(k, v)]"
| "mapSet k v (p # m) = (if fst p = k then (k, v) # m else p # mapSet k v m)"

definition mapGet :: "('k \<times> 'v) list \<Rightarrow> 'k \<Rightarrow> 'v option" where
  "mapGet m k = map_of m k"

definition mapDelete :: "'k \<Rightarrow> ('k \<times> 'v) list \<Rightarrow> ('k \<times> 'v) list" where
  "mapDelete k m = filter (\<lambda>p. fst p \<noteq> k) m"

text \<open>\<^verbatim>\<open>m.get(k) || 0\<close>: a missing key reads as 0.\<close>

definition getOrZero :: "(string \<times> real) list \<Rightarrow> string \<Rightarrow> real" where
  "getOrZero m k = (case mapGet m k of None \<Rightarrow> 0 | Some v \<Rightarrow> v)"

section \<open>Shared types and constants (packages/shared/src/index.ts)\<close>

datatype TradeType = Buy | Sell

text \<open>
  \<^verbatim>\<open>interface Trade\<close>. The field \<^verbatim>\<open>id\<close> is \<open>tradeId\<close> and \<^verbatim>\<open>type\<close> is \<open>tradeType\<close> here
  (both names are taken in HOL).
\<close>

record Trade =
  tradeId :: string
  walletAddress :: string
  signature :: string
  timestamp :: int
  tradeType :: TradeType
  tokenMint :: string
  tokenSymbol :: "string option"
  tokenAmount :: real
  solAmount :: real
  pricePerToken :: real
  dex :: string

text \<open>\<^verbatim>\<open>interface Position\<close>; the three fields it shares with a trade carry the prefix \<open>pos\<close>.\<close>

record Position =
  posWalletAddress :: string
  posTokenMint :: string
  posTokenSymbol :: "string option"
  totalBought :: real
  totalSold :: real
  totalCostBasis :: real
  totalProceeds :: real
  remainingTokens :: real
  averageBuyPrice :: real
  realizedPnL :: real
  tradeCount :: nat
  winCount :: nat
  firstTradeAt :: int
  lastTradeAt :: int

datatype Timeframe = T24h | T7d | T30d | T90d | TAll

fun TIMEFRAME_SECONDS :: "Timeframe \<Rightarrow> int option" where
  "TIMEFRAME_SECONDS T24h = Some (24 * 60 * 60)"
| "TIMEFRAME_SECONDS T7d = Some (7 * 24 * 60 * 60)"
| "TIMEFRAME_SECONDS T30d = Some (30 * 24 * 60 * 60)"
| "TIMEFRAME_SECONDS T90d = Some (90 * 24 * 60 * 60)"
| "TIMEFRAME_SECONDS TAll = None"

definition LAMPORTS_PER_SOL :: real where
  "LAMPORTS_PER_SOL = 1000000000"

definition NATIVE_SOL_MINT :: string where
  "NATIVE_SOL_MINT = ''So11111111111111111111111111111111111111112''"

definition WSOL_MINT :: string where
  "WSOL_MINT = ''So11111111111111111111111111111111111111112''"

definition USDC_MINT :: string where
  "USDC_MINT = ''EPjFWdd5AufqSSqeM2qN1xzybapC8G4wEGGkZwyTDt1v''"

text \<open>\<^verbatim>\<open>INTERMEDIATE_TOKENS\<close>: USDC, USDT, USDS, USD1, stSOL, mSOL, bSOL, jitoSOL, native SOL.\<close>

definition INTERMEDIATE_TOKENS :: "string list" where
  "INTERMEDIATE_TOKENS =
    [USDC_MINT,
     ''Es9vMFrzaCERmJfrF4H2FYD4KCoNkY11McCe8BenwNYB'',
     ''USDSwr9ApdHk5bvJKMjzff41FfuX8bSxdKcR81vTwcA'',
     ''USD1ttGY1N17NEEHLmELoaybftRBUSErhqYiQzvEmuB'',
     ''7dHbWXmci3dT8UFYWYZweBLXgycu7Y3iL6trKn1Y7ARj'',
     ''mSoLzYCxHdYgdzU16g5QSh3i5K3z3KZK7ytfqcJm7So'',
     ''bSo13r4TkiE4KumL71LsHTPpL2euBYLFx6h9HP3piy1'',
     ''J1toso1uCk3RLmjorhTtrVwY9HJ7X8V9yYac6Y7kGCPn'',
     NATIVE_SOL_MINT]"

definition isIntermediate :: "string \<Rightarrow> bool" where
  "isIntermediate mint = (mint \<in> set INTERMEDIATE_TOKENS)"

subsection \<open>Enhanced transactions of the provider\<close>

record NativeTransfer =
  ntFromUserAccount :: string
  ntToUserAccount :: string
  ntAmount :: real

record TokenTransfer =
  ttFromUserAccount :: string
  ttToUserAccount :: string
  ttTokenAmount :: real
  ttMint :: string

text \<open>
  \<^verbatim>\<open>rawTokenAmount: { tokenAmount: string; decimals: number }\<close>. The string is a raw
  integer scaled by \<open>10 ^ decimals\<close>; the field holds the integer it denotes.
\<close>

record RawTokenAmount =
  rawAmount :: int
  decimals :: nat

record TokenBalanceChange =
  tbcMint :: string
  tbcRawTokenAmount :: "RawTokenAmount option"
  tbcUserAccount :: string

record AccountData =
  account :: string
  nativeBalanceChange :: real
  tokenBalanceChanges :: "TokenBalanceChange list"

record NativeFlow =
  nfAccount :: string
  nfAmount :: int

record SwapToken =
  swMint :: string
  swRawTokenAmount :: "RawTokenAmount option"

record SwapEvent =
  nativeInput :: "NativeFlow option"
  nativeOutput :: "NativeFlow option"
  tokenInputs :: "SwapToken list"
  tokenOutputs :: "SwapToken list"

record HeliusEnhancedTransaction =
  txSignature :: string
  txTimestamp :: int
  txType :: string
  txSource :: string
  nativeTransfers :: "NativeTransfer list"
  tokenTransfers :: "TokenTransfer list"
  accountData :: "AccountData list"
  transactionError :: "string option"
  swap :: "SwapEvent option"

section \<open>Swap parser (services/parser.ts)\<close>

subsection \<open>Helpers\<close>

definition isSOLOrWSol :: "string \<Rightarrow> bool" where
  "isSOLOrWSol mint =
    (mint = NATIVE_SOL_MINT \<or> mint = WSOL_MINT \<or> mint = ''11111111111111111111111111111111'')"

definition parseTokenAmount :: "RawTokenAmount option \<Rightarrow> real" where
  "parseTokenAmount rawAmt =
    (case rawAmt of
       None \<Rightarrow> 0
     | Some r \<Rightarrow> real_of_int (rawAmount r) / 10 ^ decimals r)"

text \<open>\<^verbatim>\<open>String.prototype.toUpperCase\<close> and \<^verbatim>\<open>includes\<close>, on ASCII strings.\<close>

definition toUpperChar :: "char \<Rightarrow> char" where
  "toUpperChar c =
    (let n = (of_char c :: nat) in if 97 \<le> n \<and> n \<le> 122 then char_of (n - 32) else c)"

definition toUpperCase :: "string \<Rightarrow> string" where
  "toUpperCase s = map toUpperChar s"

fun strIncludes :: "string \<Rightarrow> string \<Rightarrow> bool" where
  "strIncludes [] sub = (sub = [])"
| "strIncludes (c # s) sub = (take (length sub) (c # s) = sub \<or> strIncludes s sub)"

definition detectDex :: "HeliusEnhancedTransaction \<Rightarrow> string" where
  "detectDex tx =
    (if txSource tx \<noteq> [] then
       (let sourceUpper = toUpperCase (txSource tx) in
        if strIncludes sourceUpper ''JUPITER'' then ''Jupiter''
        else if strIncludes sourceUpper ''RAYDIUM'' then ''Raydium''
        else if strIncludes sourceUpper ''PUMP'' \<or> strIncludes sourceUpper ''PUMPFUN'' then ''Pump.fun''
        else if strIncludes sourceUpper ''ORCA'' then ''Orca''
        else if strIncludes sourceUpper ''METEORA'' then ''Meteora''
        else if strIncludes sourceUpper ''MOONSHOT'' then ''Moonshot''
        else if strIncludes sourceUpper ''PHOENIX'' then ''Phoenix''
        else if strIncludes sourceUpper ''LIFINITY'' then ''Lifinity''
        else txSource tx)
     else if txType tx \<noteq> [] \<and> strIncludes (toUpperCase (txType tx)) ''SWAP'' then ''DEX Swap''
     else ''Unknown'')"

definition typeString :: "TradeType \<Rightarrow> string" where
  "typeString ty = (case ty of Buy \<Rightarrow> ''buy'' | Sell \<Rightarrow> ''sell'')"

definition createTrade ::
  "HeliusEnhancedTransaction \<Rightarrow> string \<Rightarrow> TradeType \<Rightarrow> string \<Rightarrow> real \<Rightarrow> real \<Rightarrow> Trade" where
  "createTrade tx wallet ty mint tokAmt solAmt =
    \<lparr> tradeId = txSignature tx @ ''-'' @ typeString ty @ ''-'' @ mint,
      walletAddress = wallet,
      signature = txSignature tx,
      timestamp = txTimestamp tx,
      tradeType = ty,
      tokenMint = mint,
      tokenSymbol = None,
      tokenAmount = tokAmt,
      solAmount = solAmt,
      pricePerToken = solAmt / tokAmt,
      dex = detectDex tx \<rparr>"

subsection \<open>Strategy A: token-transfer ledger\<close>

definition nativeStep :: "string \<Rightarrow> real \<Rightarrow> NativeTransfer \<Rightarrow> real" where
  "nativeStep wallet solDelta transfer =
    (let d1 = (if ntFromUserAccount transfer = wallet
               then solDelta - ntAmount transfer / LAMPORTS_PER_SOL else solDelta)
     in if ntToUserAccount transfer = wallet
        then d1 + ntAmount transfer / LAMPORTS_PER_SOL else d1)"

text \<open>
  \<open>currentDelta\<close> is read once, before both tests: a transfer from the wallet to itself
  ends with \<open>currentDelta + tokenAmount\<close>.
\<close>

definition tokenStep ::
  "string \<Rightarrow> (string \<times> real) list \<Rightarrow> TokenTransfer \<Rightarrow> (string \<times> real) list" where
  "tokenStep wallet tokenDeltas transfer =
    (let currentDelta = getOrZero tokenDeltas (ttMint transfer);
         m1 = (if ttFromUserAccount transfer = wallet
               then mapSet (ttMint transfer) (currentDelta - ttTokenAmount transfer) tokenDeltas
               else tokenDeltas)
     in if ttToUserAccount transfer = wallet
        then mapSet (ttMint transfer) (currentDelta + ttTokenAmount transfer) m1
        else m1)"

text \<open>The partition loop: dust is skipped, the rest goes to one of the two maps.\<close>

definition partitionStep ::
  "(string \<times> real) list \<times> (string \<times> real) list \<Rightarrow> string \<times> real \<Rightarrow>
   (string \<times> real) list \<times> (string \<times> real) list" where
  "partitionStep maps entry =
    (let mint = fst entry; delta = snd entry;
         intermediateDeltas = fst maps; targetDeltas = snd maps
     in if \<bar>delta\<bar> < 1 / 1000000 then maps
        else if isIntermediate mint then (mapSet mint delta intermediateDeltas, targetDeltas)
        else (intermediateDeltas, mapSet mint delta targetDeltas))"

definition sumAbs :: "(string \<times> real) list \<Rightarrow> real" where
  "sumAbs m = foldl (\<lambda>s d. s + \<bar>d\<bar>) 0 (map snd m)"

definition parseFromTransfers :: "HeliusEnhancedTransaction \<Rightarrow> string \<Rightarrow> Trade list" where
  "parseFromTransfers tx wallet =
    (let solDelta0 = foldl (nativeStep wallet) 0 (nativeTransfers tx);
         tokenDeltas0 = foldl (tokenStep wallet) [] (tokenTransfers tx);
         wsolDelta = getOrZero tokenDeltas0 WSOL_MINT;
         solDelta = solDelta0 + wsolDelta;
         tokenDeltas = mapDelete NATIVE_SOL_MINT (mapDelete WSOL_MINT tokenDeltas0);
         maps = foldl partitionStep ([], []) tokenDeltas;
         intermediateDeltas = fst maps;
         targetDeltas = snd maps
     in
       if targetDeltas \<noteq> [] \<and> \<bar>solDelta\<bar> > 1 / 10000 then
         (let totalTargetValue = sumAbs targetDeltas in
          concat (map (\<lambda>(mint, tokenDelta).
            (let proportion = \<bar>tokenDelta\<bar> / totalTargetValue;
                 proportionalSol = \<bar>solDelta\<bar> * proportion
             in if solDelta < 0 \<and> tokenDelta > 0
                then [createTrade tx wallet Buy mint tokenDelta proportionalSol]
                else if solDelta > 0 \<and> tokenDelta < 0
                then [createTrade tx wallet Sell mint \<bar>tokenDelta\<bar> proportionalSol]
                else [])) targetDeltas))
       else if targetDeltas \<noteq> [] \<and> intermediateDeltas \<noteq> [] then
         (let intermediateValue = sumAbs intermediateDeltas;
              intermediateDirection = foldl (\<lambda>s d. s + d) 0 (map snd intermediateDeltas)
          in concat (map (\<lambda>(mint, tokenDelta).
            (let proportion = \<bar>tokenDelta\<bar> / sumAbs targetDeltas;
                 proportionalValue = intermediateValue * proportion
             in if intermediateDirection < 0 \<and> tokenDelta > 0
                then [createTrade tx wallet Buy mint tokenDelta
                        (if \<bar>solDelta\<bar> > 1 / 10000 then \<bar>solDelta\<bar> else proportionalValue / 100)]
                else if intermediateDirection > 0 \<and> tokenDelta < 0
                then [createTrade tx wallet Sell mint \<bar>tokenDelta\<bar>
                        (if solDelta > 1 / 10000 then solDelta else proportionalValue / 100)]
                else [])) targetDeltas))
       else if targetDeltas \<noteq> [] then
         concat (map (\<lambda>(mint, tokenDelta).
            if tokenDelta > 0 then [createTrade tx wallet Buy mint tokenDelta 0] else [])
            targetDeltas)
       else [])"

subsection \<open>Strategy B: account-data balance diffs\<close>

definition solChangeStep :: "string \<Rightarrow> real \<Rightarrow> AccountData \<Rightarrow> real" where
  "solChangeStep wallet solChange acc =
    (if account acc = wallet then solChange + nativeBalanceChange acc / LAMPORTS_PER_SOL
     else solChange)"

definition tbcStep ::
  "string \<Rightarrow> (string \<times> real) list \<Rightarrow> TokenBalanceChange \<Rightarrow> (string \<times> real) list" where
  "tbcStep wallet tokenChanges tbc =
    (if tbcUserAccount tbc = wallet then
       (if isSOLOrWSol (tbcMint tbc) then tokenChanges
        else (let amount = parseTokenAmount (tbcRawTokenAmount tbc);
                  existing = getOrZero tokenChanges (tbcMint tbc)
              in mapSet (tbcMint tbc) (existing + amount) tokenChanges))
     else tokenChanges)"

definition parseFromBalanceChanges :: "HeliusEnhancedTransaction \<Rightarrow> string \<Rightarrow> Trade list" where
  "parseFromBalanceChanges tx wallet =
    (let solChange = foldl (solChangeStep wallet) 0 (accountData tx);
         tokenChanges =
           foldl (\<lambda>m acc. foldl (tbcStep wallet) m (tokenBalanceChanges acc)) [] (accountData tx)
     in if tokenChanges = [] then []
        else concat (map (\<lambda>(mint, tokenDelta).
          if \<bar>tokenDelta\<bar> < 1 / 1000000 then []
          else if tokenDelta > 0
          then [createTrade tx wallet Buy mint tokenDelta \<bar>solChange\<bar>]
          else if tokenDelta < 0
          then [createTrade tx wallet Sell mint \<bar>tokenDelta\<bar> (max 0 solChange)]
          else []) tokenChanges))"

subsection \<open>Strategy C: declared swap event\<close>

definition swapTrades ::
  "HeliusEnhancedTransaction \<Rightarrow> string \<Rightarrow> TradeType \<Rightarrow> real \<Rightarrow> SwapToken list \<Rightarrow> Trade list" where
  "swapTrades tx wallet ty solAmt toks =
    concat (map (\<lambda>tok.
      if isSOLOrWSol (swMint tok) then []
      else (let tokAmt = parseTokenAmount (swRawTokenAmount tok)
            in if tokAmt > 0 \<and> solAmt > 0
               then [createTrade tx wallet ty (swMint tok) tokAmt solAmt] else [])) toks)"

definition parseFromSwapEvent :: "HeliusEnhancedTransaction \<Rightarrow> string \<Rightarrow> Trade list" where
  "parseFromSwapEvent tx wallet =
    (case swap tx of
       None \<Rightarrow> []
     | Some sw \<Rightarrow>
         (case nativeInput sw of
            Some ni \<Rightarrow>
              if tokenOutputs sw \<noteq> []
              then swapTrades tx wallet Buy (real_of_int (nfAmount ni) / LAMPORTS_PER_SOL)
                     (tokenOutputs sw)
              else []
          | None \<Rightarrow> [])
         @
         (case nativeOutput sw of
            Some no \<Rightarrow>
              if tokenInputs sw \<noteq> []
              then swapTrades tx wallet Sell (real_of_int (nfAmount no) / LAMPORTS_PER_SOL)
                     (tokenInputs sw)
              else []
          | None \<Rightarrow> []))"

subsection \<open>The three strategies in order\<close>

text \<open>\<^verbatim>\<open>if (tx.transactionError)\<close>: \<^verbatim>\<open>null\<close>, \<^verbatim>\<open>undefined\<close> and the empty string are falsy.\<close>

definition hasTransactionError :: "HeliusEnhancedTransaction \<Rightarrow> bool" where
  "hasTransactionError tx = (case transactionError tx of None \<Rightarrow> False | Some e \<Rightarrow> e \<noteq> [])"

definition parseEnhancedTransaction :: "HeliusEnhancedTransaction \<Rightarrow> string \<Rightarrow> Trade list" where
  "parseEnhancedTransaction tx wallet =
    (if hasTransactionError tx then []
     else (let transferTrades = parseFromTransfers tx wallet in
       if transferTrades \<noteq> [] then transferTrades
       else (let balanceChangeTrades = parseFromBalanceChanges tx wallet in
         if balanceChangeTrades \<noteq> [] then balanceChangeTrades
         else (case swap tx of
                 None \<Rightarrow> []
               | Some sw \<Rightarrow> parseFromSwapEvent tx wallet))))"

section \<open>The relational store (db/index.ts)\<close>

text \<open>
  A row of \<^verbatim>\<open>cost_basis_lots\<close>. The columns \<^verbatim>\<open>timestamp\<close> and \<^verbatim>\<open>amount\<close> are
  \<open>lot_timestamp\<close> and \<open>lot_amount\<close>; the autoincrement \<^verbatim>\<open>id\<close> is the row's place in the
  table.
\<close>

record CostBasisLot =
  wallet_address :: string
  token_mint :: string
  trade_id :: string
  lot_timestamp :: int
  lot_amount :: real
  remaining_amount :: real
  price_per_token :: real

datatype SlippageModel = Conservative | Moderate | Aggressive

text \<open>A row of \<^verbatim>\<open>wallet_follow_scores\<close> (primary key \<^verbatim>\<open>wallet_address\<close>).\<close>

record FollowScoreRow =
  fs_wallet_address :: string
  delay_seconds :: real
  slippage_model :: SlippageModel
  actual_pnl :: real
  simulated_pnl :: real
  followability_ratio :: real
  avg_time_to_first_sell_sec :: "real option"
  median_time_to_first_sell_sec :: "real option"
  quick_dump_rate :: real
  total_tokens_traded :: nat
  followable_tokens :: nat
  unfollowable_tokens :: nat
  avg_entry_size_sol :: real
  scored_at :: int

text \<open>
  The tables the analytics pipeline touches. A row of \<^verbatim>\<open>positions\<close> holds the fields of
  a \<^typ>\<open>Position\<close> one to one (primary key \<^verbatim>\<open>(wallet_address, token_mint)\<close>).
\<close>

record Store =
  tradesTable :: "Trade list"
  positionsTable :: "Position list"
  lotsTable :: "CostBasisLot list"
  followScoresTable :: "FollowScoreRow list"

definition deleteLotsByWallet :: "string \<Rightarrow> Store \<Rightarrow> Store" where
  "deleteLotsByWallet wallet db =
    db\<lparr>lotsTable := filter (\<lambda>l. wallet_address l \<noteq> wallet) (lotsTable db)\<rparr>"

definition deletePositionsByWallet :: "string \<Rightarrow> Store \<Rightarrow> Store" where
  "deletePositionsByWallet wallet db =
    db\<lparr>positionsTable := filter (\<lambda>p. posWalletAddress p \<noteq> wallet) (positionsTable db)\<rparr>"

definition insertLot :: "CostBasisLot \<Rightarrow> Store \<Rightarrow> Store" where
  "insertLot row db = db\<lparr>lotsTable := lotsTable db @ [row]\<rparr>"

fun upsertRow :: "Position \<Rightarrow> Position list \<Rightarrow> Position list" where
  "upsertRow p [] = [p]"
| "upsertRow p (q # qs) =
    (if posWalletAddress q = posWalletAddress p \<and> posTokenMint q = posTokenMint p
     then p # qs else q # upsertRow p qs)"

definition upsertPosition :: "Position \<Rightarrow> Store \<Rightarrow> Store" where
  "upsertPosition p db = db\<lparr>positionsTable := upsertRow p (positionsTable db)\<rparr>"

text \<open>What a reader of the store sees for one (wallet, mint) pair.\<close>

definition lotsOf :: "Store \<Rightarrow> string \<Rightarrow> string \<Rightarrow> CostBasisLot list" where
  "lotsOf db wallet mint =
    filter (\<lambda>l. wallet_address l = wallet \<and> token_mint l = mint) (lotsTable db)"

definition positionOf :: "Store \<Rightarrow> string \<Rightarrow> string \<Rightarrow> Position option" where
  "positionOf db wallet mint =
    find (\<lambda>p. posWalletAddress p = wallet \<and> posTokenMint p = mint) (positionsTable db)"

section \<open>FIFO engine (services/pnl.ts)\<close>

text \<open>An element of \<^verbatim>\<open>buyLots\<close>.\<close>

record BuyLot =
  lotTradeId :: string
  amount :: real
  remaining :: real
  price :: real
  lotTimestamp :: int

text \<open>\<^verbatim>\<open>tradesByToken\<close>: the trades of each mint, mints in order of first appearance.\<close>

definition groupStep ::
  "(string \<times> Trade list) list \<Rightarrow> Trade \<Rightarrow> (string \<times> Trade list) list" where
  "groupStep m trade =
    (let existing = (case mapGet m (tokenMint trade) of None \<Rightarrow> [] | Some ts \<Rightarrow> ts)
     in mapSet (tokenMint trade) (existing @ [trade]) m)"

definition groupByToken :: "Trade list \<Rightarrow> (string \<times> Trade list) list" where
  "groupByToken trades = foldl groupStep [] trades"

text \<open>
  \<^verbatim>\<open>[...tokenTrades].sort((a, b) => a.timestamp - b.timestamp)\<close>: the comparator looks at
  the timestamp only, and the sort of the language is stable.
\<close>

definition sortByTimestamp :: "Trade list \<Rightarrow> Trade list" where
  "sortByTimestamp ts = sort_key timestamp ts"

text \<open>
  The inner loop of a sell, over \<^verbatim>\<open>buyLots\<close> from the front: \<^verbatim>\<open>break\<close> once the sell is
  matched, \<^verbatim>\<open>continue\<close> over an empty lot. It returns the lots as mutated, what is left of
  the sell, and the accumulated cost basis.
\<close>

fun matchLots :: "BuyLot list \<Rightarrow> real \<Rightarrow> real \<Rightarrow> BuyLot list \<times> real \<times> real" where
  "matchLots [] sellRemaining sellCostBasis = ([], sellRemaining, sellCostBasis)"
| "matchLots (lot # lots) sellRemaining sellCostBasis =
    (if sellRemaining \<le> 0 then (lot # lots, sellRemaining, sellCostBasis)
     else if remaining lot \<le> 0 then
       (case matchLots lots sellRemaining sellCostBasis of
          (lots', r, c) \<Rightarrow> (lot # lots', r, c))
     else
       (let matchAmount = min (remaining lot) sellRemaining in
        case matchLots lots (sellRemaining - matchAmount)
               (sellCostBasis + matchAmount * price lot) of
          (lots', r, c) \<Rightarrow> (lot\<lparr>remaining := remaining lot - matchAmount\<rparr> # lots', r, c)))"

text \<open>The running totals of one mint.\<close>

record FifoAcc =
  accBought :: real
  accSold :: real
  accCostBasis :: real
  accProceeds :: real
  accRealizedPnL :: real
  accWinCount :: nat
  buyLots :: "BuyLot list"

definition fifoInit :: FifoAcc where
  "fifoInit = \<lparr> accBought = 0, accSold = 0, accCostBasis = 0, accProceeds = 0,
                accRealizedPnL = 0, accWinCount = 0, buyLots = [] \<rparr>"

definition fifoStep :: "FifoAcc \<Rightarrow> Trade \<Rightarrow> FifoAcc" where
  "fifoStep acc trade =
    (if tradeType trade = Buy then
       acc\<lparr> buyLots := buyLots acc @
               [\<lparr> lotTradeId = tradeId trade, amount = tokenAmount trade,
                  remaining = tokenAmount trade, price = pricePerToken trade,
                  lotTimestamp = timestamp trade \<rparr>],
             accBought := accBought acc + tokenAmount trade,
             accCostBasis := accCostBasis acc + solAmount trade \<rparr>
     else
       (case matchLots (buyLots acc) (tokenAmount trade) 0 of
          (lots', sellRemaining, sellCostBasis) \<Rightarrow>
            (let sellProfit = solAmount trade - sellCostBasis in
             acc\<lparr> buyLots := lots',
                   accRealizedPnL := accRealizedPnL acc + sellProfit,
                   accSold := accSold acc + tokenAmount trade,
                   accProceeds := accProceeds acc + solAmount trade,
                   accWinCount := (if sellProfit > 0 then accWinCount acc + 1
                                   else accWinCount acc) \<rparr>)))"

definition lotRow :: "string \<Rightarrow> string \<Rightarrow> BuyLot \<Rightarrow> CostBasisLot" where
  "lotRow wallet mint lot =
    \<lparr> wallet_address = wallet, token_mint = mint, trade_id = lotTradeId lot,
      lot_timestamp = lotTimestamp lot, lot_amount = amount lot,
      remaining_amount = remaining lot, price_per_token = price lot \<rparr>"

text \<open>\<^verbatim>\<open>sortedTrades[0]?.timestamp || 0\<close> and its companion for the last element.\<close>

definition firstTimestamp :: "Trade list \<Rightarrow> int" where
  "firstTimestamp ts = (case ts of [] \<Rightarrow> 0 | t # _ \<Rightarrow> timestamp t)"

definition lastTimestamp :: "Trade list \<Rightarrow> int" where
  "lastTimestamp ts = (if ts = [] then 0 else timestamp (last ts))"

text \<open>One turn of the loop over \<^verbatim>\<open>tradesByToken\<close>, up to the lots and the position it builds.\<close>

definition tokenFifo :: "Trade list \<Rightarrow> FifoAcc" where
  "tokenFifo tokenTrades = foldl fifoStep fifoInit (sortByTimestamp tokenTrades)"

definition buildPosition :: "string \<Rightarrow> string \<Rightarrow> Trade list \<Rightarrow> Position" where
  "buildPosition wallet mint tokenTrades =
    (let sortedTrades = sortByTimestamp tokenTrades;
         acc = foldl fifoStep fifoInit sortedTrades
     in \<lparr> posWalletAddress = wallet,
          posTokenMint = mint,
          posTokenSymbol = (case sortedTrades of [] \<Rightarrow> None | t # _ \<Rightarrow> tokenSymbol t),
          totalBought = accBought acc,
          totalSold = accSold acc,
          totalCostBasis = accCostBasis acc,
          totalProceeds = accProceeds acc,
          remainingTokens = accBought acc - accSold acc,
          averageBuyPrice = (if accBought acc > 0 then accCostBasis acc / accBought acc else 0),
          realizedPnL = accRealizedPnL acc,
          tradeCount = length sortedTrades,
          winCount = accWinCount acc,
          firstTradeAt = firstTimestamp sortedTrades,
          lastTradeAt = lastTimestamp sortedTrades \<rparr>)"

text \<open>The lots written for one mint: those with something left, in queue order.\<close>

definition openLotRows :: "string \<Rightarrow> string \<Rightarrow> Trade list \<Rightarrow> CostBasisLot list" where
  "openLotRows wallet mint tokenTrades =
    map (lotRow wallet mint) (filter (\<lambda>lot. remaining lot > 0) (buyLots (tokenFifo tokenTrades)))"

text \<open>\<^verbatim>\<open>token_symbol: tokenSymbol || null\<close>: an empty symbol is stored as null.\<close>

definition positionRow :: "Position \<Rightarrow> Position" where
  "positionRow p = p\<lparr>posTokenSymbol := (if posTokenSymbol p = Some [] then None else posTokenSymbol p)\<rparr>"

record FifoLoop =
  loopPositions :: "Position list"
  loopTotal :: real
  loopDb :: Store

definition fifoTokenStep :: "string \<Rightarrow> FifoLoop \<Rightarrow> string \<times> Trade list \<Rightarrow> FifoLoop" where
  "fifoTokenStep wallet st entry =
    (let mint = fst entry; tokenTrades = snd entry;
         db1 = foldl (\<lambda>db row. insertLot row db) (loopDb st) (openLotRows wallet mint tokenTrades);
         position = buildPosition wallet mint tokenTrades
     in \<lparr> loopPositions = loopPositions st @ [position],
          loopTotal = loopTotal st + realizedPnL position,
          loopDb = upsertPosition (positionRow position) db1 \<rparr>)"

text \<open>
  \<^verbatim>\<open>calculateFIFOPnL(walletAddress, trades)\<close>: the positions, the total realized PnL, and
  the store after the run.
\<close>

definition calculateFIFOPnL :: "string \<Rightarrow> Trade list \<Rightarrow> Store \<Rightarrow> (Position list \<times> real) \<times> Store" where
  "calculateFIFOPnL wallet trades db =
    (let tradesByToken = groupByToken trades;
         db0 = deletePositionsByWallet wallet (deleteLotsByWallet wallet db);
         fin = foldl (fifoTokenStep wallet)
                 \<lparr> loopPositions = [], loopTotal = 0, loopDb = db0 \<rparr> tradesByToken
     in ((loopPositions fin, loopTotal fin), loopDb fin))"

section \<open>Period summarizer (services/pnl.ts)\<close>

text \<open>\<^verbatim>\<open>interface PnLSummary\<close>; \<^verbatim>\<open>walletAddress\<close> and \<^verbatim>\<open>winCount\<close> carry the prefix \<open>sum\<close>.\<close>

record PnLSummary =
  sumWalletAddress :: string
  timeframe :: Timeframe
  periodStart :: int
  periodEnd :: int
  totalRealizedPnL :: real
  totalTrades :: nat
  totalBuys :: nat
  totalSells :: nat
  sumWinCount :: nat
  lossCount :: nat
  winRate :: real
  totalSolVolume :: real
  avgTradeSize :: real
  avgHoldDuration :: real
  uniqueTokensTraded :: nat
  bestTrade :: "Trade option"
  worstTrade :: "Trade option"
  positions :: "Position list"

text \<open>
  \<^verbatim>\<open>timeframeSeconds ? now - timeframeSeconds : 0\<close> and the filter on
  \<^verbatim>\<open>t.timestamp >= periodStart\<close> (no filter for \<^verbatim>\<open>'all'\<close>).
\<close>

definition periodStartOf :: "int \<Rightarrow> Timeframe \<Rightarrow> int" where
  "periodStartOf now tf = (case TIMEFRAME_SECONDS tf of None \<Rightarrow> 0 | Some secs \<Rightarrow> now - secs)"

definition tradesInPeriod :: "int \<Rightarrow> Timeframe \<Rightarrow> Trade list \<Rightarrow> Trade list" where
  "tradesInPeriod now tf allTrades =
    (case TIMEFRAME_SECONDS tf of
       None \<Rightarrow> allTrades
     | Some secs \<Rightarrow> filter (\<lambda>t. timestamp t \<ge> periodStartOf now tf) allTrades)"

text \<open>The body of the loop over \<^verbatim>\<open>periodSells\<close>: profit against the all-time average price.\<close>

definition sellProfitAt :: "real \<Rightarrow> Trade \<Rightarrow> real" where
  "sellProfitAt avgPrice sell = solAmount sell - tokenAmount sell * avgPrice"

definition periodSellStep :: "real \<Rightarrow> real \<times> nat \<Rightarrow> Trade \<Rightarrow> real \<times> nat" where
  "periodSellStep avgPrice st sell =
    (let profit = sellProfitAt avgPrice sell
     in (fst st + profit, if profit > 0 then snd st + 1 else snd st))"

text \<open>
  \<^verbatim>\<open>periodRealizedPnL\<close> and \<^verbatim>\<open>periodWinCount\<close> of one mint: both stay 0 unless the full
  position exists and the period has sells of the mint.
\<close>

definition periodSellsResult :: "Position option \<Rightarrow> Trade list \<Rightarrow> real \<times> nat" where
  "periodSellsResult fullPosition periodSells =
    (case fullPosition of
       None \<Rightarrow> (0, 0)
     | Some fp \<Rightarrow>
         if periodSells \<noteq> []
         then foldl (periodSellStep (averageBuyPrice fp)) (0, 0) periodSells
         else (0, 0))"

text \<open>\<^verbatim>\<open>Math.min(...)\<close> and \<^verbatim>\<open>Math.max(...)\<close> over the timestamps of a group (never empty).\<close>

definition minTimestamp :: "Trade list \<Rightarrow> int" where
  "minTimestamp ts = (case ts of [] \<Rightarrow> 0 | t # r \<Rightarrow> foldl min (timestamp t) (map timestamp r))"

definition maxTimestamp :: "Trade list \<Rightarrow> int" where
  "maxTimestamp ts = (case ts of [] \<Rightarrow> 0 | t # r \<Rightarrow> foldl max (timestamp t) (map timestamp r))"

record PeriodLoop =
  plTotalRealizedPnL :: real
  plWinCount :: nat
  plLossCount :: nat
  plPositions :: "Position list"

text \<open>One turn of the loop over \<^verbatim>\<open>periodTradesByToken\<close>.\<close>

definition periodTokenStep ::
  "string \<Rightarrow> Position list \<Rightarrow> PeriodLoop \<Rightarrow> string \<times> Trade list \<Rightarrow> PeriodLoop" where
  "periodTokenStep wallet allPositions st entry =
    (let mint = fst entry; periodTrades = snd entry;
         fullPosition = find (\<lambda>p. posTokenMint p = mint) allPositions;
         periodBuys = filter (\<lambda>t. tradeType t = Buy) periodTrades;
         periodSells = filter (\<lambda>t. tradeType t = Sell) periodTrades;
         periodBought = sum_list (map tokenAmount periodBuys);
         periodSold = sum_list (map tokenAmount periodSells);
         periodCostBasis = sum_list (map solAmount periodBuys);
         periodProceeds = sum_list (map solAmount periodSells);
         res = periodSellsResult fullPosition periodSells;
         periodRealizedPnL = fst res;
         periodWinCount = snd res
     in \<lparr> plTotalRealizedPnL = plTotalRealizedPnL st + periodRealizedPnL,
          plWinCount = (if periodRealizedPnL > 0 then plWinCount st + periodWinCount
                        else plWinCount st),
          plLossCount = (if periodRealizedPnL > 0 then plLossCount st
                         else if periodRealizedPnL < 0
                         then plLossCount st + (length periodSells - periodWinCount)
                         else plLossCount st),
          plPositions = plPositions st @
            [\<lparr> posWalletAddress = wallet,
               posTokenMint = mint,
               posTokenSymbol = (case fullPosition of None \<Rightarrow> None | Some fp \<Rightarrow> posTokenSymbol fp),
               totalBought = periodBought,
               totalSold = periodSold,
               totalCostBasis = periodCostBasis,
               totalProceeds = periodProceeds,
               remainingTokens = (case fullPosition of None \<Rightarrow> 0 | Some fp \<Rightarrow> remainingTokens fp),
               averageBuyPrice = (case fullPosition of None \<Rightarrow> 0 | Some fp \<Rightarrow> averageBuyPrice fp),
               realizedPnL = periodRealizedPnL,
               tradeCount = length periodTrades,
               winCount = periodWinCount,
               firstTradeAt = minTimestamp periodTrades,
               lastTradeAt = maxTimestamp periodTrades \<rparr>] \<rparr>)"

text \<open>The hold-duration loop over \<^verbatim>\<open>periodPositions\<close>.\<close>

definition holdStep :: "real \<times> nat \<Rightarrow> Position \<Rightarrow> real \<times> nat" where
  "holdStep st pos =
    (if totalSold pos > 0 \<and> firstTradeAt pos \<noteq> 0 \<and> lastTradeAt pos \<noteq> 0
     then (fst st + real_of_int (lastTradeAt pos - firstTradeAt pos), snd st + 1)
     else st)"

text \<open>
  The best/worst loop. \<open>None\<close> in the first component of a pair stands for the initial
  \<^verbatim>\<open>-Infinity\<close> (best) or \<^verbatim>\<open>Infinity\<close> (worst).
\<close>

definition bestWorstStep ::
  "Position list \<Rightarrow> (real option \<times> Trade option) \<times> (real option \<times> Trade option) \<Rightarrow> Trade \<Rightarrow>
   (real option \<times> Trade option) \<times> (real option \<times> Trade option)" where
  "bestWorstStep allPositions st sell =
    (case find (\<lambda>p. posTokenMint p = tokenMint sell) allPositions of
       None \<Rightarrow> st
     | Some pos \<Rightarrow>
         if averageBuyPrice pos > 0 then
           (let tradePnL = sellProfitAt (averageBuyPrice pos) sell;
                best = fst st; worst = snd st;
                best' = (case fst best of
                           None \<Rightarrow> (Some tradePnL, Some sell)
                         | Some b \<Rightarrow> if tradePnL > b then (Some tradePnL, Some sell) else best);
                worst' = (case fst worst of
                            None \<Rightarrow> (Some tradePnL, Some sell)
                          | Some w \<Rightarrow> if tradePnL < w then (Some tradePnL, Some sell) else worst)
            in (best', worst'))
         else st)"

text \<open>
  \<^verbatim>\<open>generatePnLSummary(walletAddress, allTrades, timeframe)\<close> at the clock reading \<open>now\<close>
  (in seconds). It first runs the FIFO engine on all trades, which rewrites the store.
\<close>

definition generatePnLSummary ::
  "int \<Rightarrow> string \<Rightarrow> Trade list \<Rightarrow> Timeframe \<Rightarrow> Store \<Rightarrow> PnLSummary \<times> Store" where
  "generatePnLSummary now wallet allTrades tf db =
    (let fifo = calculateFIFOPnL wallet allTrades db;
         allPositions = fst (fst fifo);
         inPeriod = tradesInPeriod now tf allTrades;
         periodTradesByToken = groupByToken inPeriod;
         fin = foldl (periodTokenStep wallet allPositions)
                 \<lparr> plTotalRealizedPnL = 0, plWinCount = 0, plLossCount = 0, plPositions = [] \<rparr>
                 periodTradesByToken;
         nBuys = length (filter (\<lambda>t. tradeType t = Buy) inPeriod);
         nSells = length (filter (\<lambda>t. tradeType t = Sell) inPeriod);
         nTrades = length inPeriod;
         volume = sum_list (map solAmount inPeriod);
         hold = foldl holdStep (0, 0) (plPositions fin);
         bw = foldl (bestWorstStep allPositions) ((None, None), (None, None))
                (filter (\<lambda>t. tradeType t = Sell) inPeriod)
     in (\<lparr> sumWalletAddress = wallet,
           timeframe = tf,
           periodStart = periodStartOf now tf,
           periodEnd = now,
           totalRealizedPnL = plTotalRealizedPnL fin,
           totalTrades = nTrades,
           totalBuys = nBuys,
           totalSells = nSells,
           sumWinCount = plWinCount fin,
           lossCount = plLossCount fin,
           winRate = (if nSells > 0 then real (plWinCount fin) / real nSells * 100 else 0),
           totalSolVolume = volume,
           avgTradeSize = (if nTrades > 0 then volume / real nTrades else 0),
           avgHoldDuration = (if snd hold > 0 then fst hold / real (snd hold) else 0),
           uniqueTokensTraded = length (remdups (map tokenMint inPeriod)),
           bestTrade = snd (fst bw),
           worstTrade = snd (snd bw),
           positions = plPositions fin \<rparr>,
         snd fifo))"

section \<open>Follow simulator (services/followSimulator.ts)\<close>

text \<open>\<^verbatim>\<open>SLIPPAGE_CONFIG\<close>: the fractions for a small, a medium and a large trade.\<close>

fun SLIPPAGE_CONFIG :: "SlippageModel \<Rightarrow> real \<times> real \<times> real" where
  "SLIPPAGE_CONFIG Conservative = (1 / 100, 2 / 100, 5 / 100)"
| "SLIPPAGE_CONFIG Moderate = (2 / 100, 5 / 100, 10 / 100)"
| "SLIPPAGE_CONFIG Aggressive = (3 / 100, 8 / 100, 15 / 100)"

definition getSlippage :: "real \<Rightarrow> SlippageModel \<Rightarrow> real" where
  "getSlippage solAmt model =
    (case SLIPPAGE_CONFIG model of
       (small, medium, large) \<Rightarrow>
         if solAmt < 5 / 10 then small else if solAmt < 2 then medium else large)"

text \<open>\<^verbatim>\<open>TIME_THRESHOLDS\<close>: 30, 60, 120 and 300 seconds.\<close>

definition getFollowabilityScore :: "int \<Rightarrow> real" where
  "getFollowabilityScore timeToFirstSellSec =
    (if timeToFirstSellSec < 30 then 0
     else if timeToFirstSellSec < 60 then 2 / 10
     else if timeToFirstSellSec < 120 then 5 / 10
     else if timeToFirstSellSec < 300 then 8 / 10
     else 1)"

record TokenRoundTrip =
  rtTokenMint :: string
  rtBuys :: "Trade list"
  rtSells :: "Trade list"
  rtTimeToFirstSellSec :: int
  rtActualPnL :: real
  rtSimulatedPnL :: real
  rtTotalBuySol :: real
  rtIsFollowable :: bool

record FollowSimulationResult =
  resWalletAddress :: string
  delaySeconds :: real
  slippageModel :: SlippageModel
  actualPnL :: real
  simulatedPnL :: real
  followabilityRatio :: real
  avgTimeToFirstSellSec :: "real option"
  medianTimeToFirstSellSec :: "real option"
  quickDumpRate :: real
  totalTokensTraded :: nat
  followableTokens :: nat
  unfollowableTokens :: nat
  avgEntrySizeSol :: real
  tokenBreakdown :: "TokenRoundTrip list"

text \<open>The accumulators of the loop over \<^verbatim>\<open>tradesByToken\<close>.\<close>

record SimLoop =
  slBreakdown :: "TokenRoundTrip list"
  slActualPnL :: real
  slSimulatedPnL :: real
  slBuySol :: real
  slTimes :: "int list"
  slQuickDumpCount :: nat
  slFollowableCount :: nat
  slUnfollowableCount :: nat

definition simulatedCostOf :: "real \<Rightarrow> SlippageModel \<Rightarrow> Trade list \<Rightarrow> real" where
  "simulatedCostOf delay model buys =
    foldl (\<lambda>cost buy. cost + solAmount buy *
             (1 + (getSlippage (solAmount buy) model + delay * (1 / 1000)))) 0 buys"

definition simulatedProceedsOf :: "real \<Rightarrow> SlippageModel \<Rightarrow> Trade list \<Rightarrow> real" where
  "simulatedProceedsOf delay model sells =
    foldl (\<lambda>proceeds sell. proceeds + solAmount sell *
             (1 - (getSlippage (solAmount sell) model + delay * (1 / 1000)))) 0 sells"

definition simTokenStep ::
  "real \<Rightarrow> SlippageModel \<Rightarrow> SimLoop \<Rightarrow> string \<times> Trade list \<Rightarrow> SimLoop" where
  "simTokenStep delay model st entry =
    (let mint = fst entry;
         sorted = sortByTimestamp (snd entry);
         buys = filter (\<lambda>t. tradeType t = Buy) sorted;
         sells = filter (\<lambda>t. tradeType t = Sell) sorted
     in case buys of
          [] \<Rightarrow> st
        | firstBuy # _ \<Rightarrow>
           (case sells of
              [] \<Rightarrow> st
            | firstSell # _ \<Rightarrow>
               (let timeToFirstSellSec = timestamp firstSell - timestamp firstBuy;
                    bought = sum_list (map solAmount buys);
                    sold = sum_list (map solAmount sells);
                    actual = sold - bought;
                    followabilityScore = getFollowabilityScore timeToFirstSellSec;
                    simulated =
                      (if followabilityScore > 0
                       then (simulatedProceedsOf delay model sells
                              - simulatedCostOf delay model buys) * followabilityScore
                       else 0);
                    isFollowable = (followabilityScore \<ge> 5 / 10)
                in \<lparr> slBreakdown = slBreakdown st @
                       [\<lparr> rtTokenMint = mint, rtBuys = buys, rtSells = sells,
                          rtTimeToFirstSellSec = timeToFirstSellSec,
                          rtActualPnL = actual, rtSimulatedPnL = simulated,
                          rtTotalBuySol = bought, rtIsFollowable = isFollowable \<rparr>],
                     slActualPnL = slActualPnL st + actual,
                     slSimulatedPnL = slSimulatedPnL st + simulated,
                     slBuySol = slBuySol st + bought,
                     slTimes = slTimes st @ [timeToFirstSellSec],
                     slQuickDumpCount = (if timeToFirstSellSec < 60 then slQuickDumpCount st + 1
                                         else slQuickDumpCount st),
                     slFollowableCount = (if isFollowable then slFollowableCount st + 1
                                          else slFollowableCount st),
                     slUnfollowableCount = (if isFollowable then slUnfollowableCount st
                                            else slUnfollowableCount st + 1) \<rparr>)))"

definition simInit :: SimLoop where
  "simInit = \<lparr> slBreakdown = [], slActualPnL = 0, slSimulatedPnL = 0, slBuySol = 0,
               slTimes = [], slQuickDumpCount = 0, slFollowableCount = 0,
               slUnfollowableCount = 0 \<rparr>"

text \<open>The median of the times to first sell (\<open>None\<close> for \<^verbatim>\<open>null\<close>).\<close>

definition medianOf :: "int list \<Rightarrow> real option" where
  "medianOf secs =
    (if secs = [] then None
     else (let sorted = sort secs; mid = length sorted div 2
           in if length sorted mod 2 = 0
              then Some (real_of_int (sorted ! (mid - 1) + sorted ! mid) / 2)
              else Some (real_of_int (sorted ! mid))))"

text \<open>
  \<^verbatim>\<open>getTradesByWallet\<close>: the wallet's rows, newest first. SQL leaves the order of equal
  timestamps open; the model keeps table order among them.
\<close>

definition getTradesByWallet :: "Store \<Rightarrow> string \<Rightarrow> Trade list" where
  "getTradesByWallet db wallet =
    sort_key (\<lambda>t. - timestamp t) (filter (\<lambda>t. walletAddress t = wallet) (tradesTable db))"

definition simulateFollowReturns ::
  "string \<Rightarrow> real \<Rightarrow> SlippageModel \<Rightarrow> Store \<Rightarrow> FollowSimulationResult" where
  "simulateFollowReturns wallet delay model db =
    (let trades = getTradesByWallet db wallet;
         fin = foldl (simTokenStep delay model) simInit (groupByToken trades);
         n = length (slBreakdown fin);
         totalActualPnL = slActualPnL fin;
         totalSimulatedPnL = slSimulatedPnL fin
     in \<lparr> resWalletAddress = wallet,
          delaySeconds = delay,
          slippageModel = model,
          actualPnL = totalActualPnL,
          simulatedPnL = totalSimulatedPnL,
          followabilityRatio =
            (if totalActualPnL > 0 \<and> totalSimulatedPnL > 0 then totalSimulatedPnL / totalActualPnL
             else if totalActualPnL > 0 \<and> totalSimulatedPnL \<le> 0
             then totalSimulatedPnL / totalActualPnL
             else 0),
          avgTimeToFirstSellSec =
            (if slTimes fin = [] then None
             else Some (real_of_int (sum_list (slTimes fin)) / real (length (slTimes fin)))),
          medianTimeToFirstSellSec = medianOf (slTimes fin),
          quickDumpRate = (if n > 0 then real (slQuickDumpCount fin) / real n else 0),
          totalTokensTraded = n,
          followableTokens = slFollowableCount fin,
          unfollowableTokens = slUnfollowableCount fin,
          avgEntrySizeSol = (if n > 0 then slBuySol fin / real n else 0),
          tokenBreakdown = slBreakdown fin \<rparr>)"

text \<open>\<^verbatim>\<open>upsertScore\<close>: insert, or replace the row of the same wallet where it stands.\<close>

fun upsertScoreRow :: "FollowScoreRow \<Rightarrow> FollowScoreRow list \<Rightarrow> FollowScoreRow list" where
  "upsertScoreRow r [] = [r]"
| "upsertScoreRow r (q # qs) =
    (if fs_wallet_address q = fs_wallet_address r then r # qs else q # upsertScoreRow r qs)"

text \<open>\<^verbatim>\<open>scoreWallet\<close> at the clock reading \<open>now\<close>: simulate, then save the score.\<close>

definition scoreWallet ::
  "int \<Rightarrow> string \<Rightarrow> real \<Rightarrow> SlippageModel \<Rightarrow> Store \<Rightarrow> FollowSimulationResult \<times> Store" where
  "scoreWallet now wallet delay model db =
    (let result = simulateFollowReturns wallet delay model db;
         row = \<lparr> fs_wallet_address = wallet,
                 delay_seconds = delay,
                 slippage_model = model,
                 actual_pnl = actualPnL result,
                 simulated_pnl = simulatedPnL result,
                 followability_ratio = followabilityRatio result,
                 avg_time_to_first_sell_sec = avgTimeToFirstSellSec result,
                 median_time_to_first_sell_sec = medianTimeToFirstSellSec result,
                 quick_dump_rate = quickDumpRate result,
                 total_tokens_traded = totalTokensTraded result,
                 followable_tokens = followableTokens result,
                 unfollowable_tokens = unfollowableTokens result,
                 avg_entry_size_sol = avgEntrySizeSol result,
                 scored_at = now \<rparr>
     in (result, db\<lparr>followScoresTable := upsertScoreRow row (followScoresTable db)\<rparr>))"

text \<open>\<^verbatim>\<open>getScore\<close>: the row of the wallet, if any.\<close>

definition getScore :: "Store \<Rightarrow> string \<Rightarrow> FollowScoreRow option" where
  "getScore db wallet = find (\<lambda>r. fs_wallet_address r = wallet) (followScoresTable db)"

text \<open>\<^verbatim>\<open>getFollowScore\<close>: \<open>None\<close> is \<^verbatim>\<open>null\<close>.\<close>

definition getFollowScore :: "Store \<Rightarrow> string \<Rightarrow> FollowSimulationResult option" where
  "getFollowScore db wallet =
    (case getScore db wallet of
       None \<Rightarrow> None
     | Some row \<Rightarrow>
         Some \<lparr> resWalletAddress = fs_wallet_address row,
                delaySeconds = delay_seconds row,
                slippageModel = slippage_model row,
                actualPnL = actual_pnl row,
                simulatedPnL = simulated_pnl row,
                followabilityRatio = followability_ratio row,
                avgTimeToFirstSellSec = avg_time_to_first_sell_sec row,
                medianTimeToFirstSellSec = median_time_to_first_sell_sec row,
                quickDumpRate = quick_dump_rate row,
                totalTokensTraded = total_tokens_traded row,
                followableTokens = followable_tokens row,
                unfollowableTokens = unfollowable_tokens row,
                avgEntrySizeSol = avg_entry_size_sol row,
                tokenBreakdown = [] \<rparr>)"

section \<open>Signature paging of the sync coordinator (services/helius.ts, routes)\<close>

record ConfirmedSignatureInfo =
  sigSignature :: string
  slot :: nat
  blockTime :: "int option"

datatype error = ProviderError string

text \<open>
  The provider's \<^verbatim>\<open>getSignaturesForAddress\<close> behind the rate limiter and the retry
  wrapper: the \<open>n\<close>-th call of a run, for an address, a limit and the \<^verbatim>\<open>before\<close> and
  \<^verbatim>\<open>until\<close> cursors, either fails for good (an invalid address, retries exhausted) or
  answers with a batch, newest first.
\<close>

type_synonym Rpc =
  "nat \<Rightarrow> string \<Rightarrow> nat \<Rightarrow> string option \<Rightarrow> string option \<Rightarrow> error + ConfirmedSignatureInfo list"

text \<open>\<^verbatim>\<open>limit: options.limit || 1000\<close>.\<close>

definition getSignaturesForAddress ::
  "Rpc \<Rightarrow> nat \<Rightarrow> string \<Rightarrow> nat option \<Rightarrow> string option \<Rightarrow> string option \<Rightarrow>
   error + ConfirmedSignatureInfo list" where
  "getSignaturesForAddress rpc n address limit before until =
    rpc n address (case limit of None \<Rightarrow> 1000 | Some l \<Rightarrow> if l = 0 then 1000 else l) before until"

fun findIndex :: "('a \<Rightarrow> bool) \<Rightarrow> 'a list \<Rightarrow> nat option" where
  "findIndex P [] = None"
| "findIndex P (x # xs) = (if P x then Some 0 else map_option Suc (findIndex P xs))"

text \<open>
  \<^verbatim>\<open>options.until ? batch.findIndex(s => s.signature === options.until) : -1\<close>;
  \<open>None\<close> is \<^verbatim>\<open>-1\<close>.
\<close>

definition untilIndexOf :: "string option \<Rightarrow> ConfirmedSignatureInfo list \<Rightarrow> nat option" where
  "untilIndexOf until batch =
    (case until of
       None \<Rightarrow> None
     | Some u \<Rightarrow> if u = [] then None else findIndex (\<lambda>s. sigSignature s = u) batch)"

text \<open>
  The \<^verbatim>\<open>while\<close> loop of \<^verbatim>\<open>getAllSignaturesForAddress\<close>, entered for the \<open>n\<close>-th provider call
  with the cursor \<open>lastSignature\<close> and the signatures gathered so far. The progress
  callback only reports the count and is left out.
\<close>

function signaturesLoop ::
  "Rpc \<Rightarrow> string \<Rightarrow> string option \<Rightarrow> nat \<Rightarrow> nat \<Rightarrow> string option \<Rightarrow>
   ConfirmedSignatureInfo list \<Rightarrow> error + ConfirmedSignatureInfo list" where
  "signaturesLoop rpc address until maxSignatures n lastSignature allSignatures =
    (if length allSignatures < maxSignatures then
       (case getSignaturesForAddress rpc n address (Some 1000) lastSignature until of
          Inl e \<Rightarrow> Inl e
        | Inr batch \<Rightarrow>
            if batch = [] then Inr allSignatures
            else (case untilIndexOf until batch of
                    Some untilIndex \<Rightarrow> Inr (allSignatures @ take untilIndex batch)
                  | None \<Rightarrow>
                      if length batch < 1000 then Inr (allSignatures @ batch)
                      else signaturesLoop rpc address until maxSignatures (Suc n)
                             (Some (sigSignature (last batch))) (allSignatures @ batch)))
     else Inr allSignatures)"
  by pat_completeness auto
termination
  by (relation "measure (\<lambda>(rpc, address, until, maxSignatures, n, lastSignature, allSignatures).
                  maxSignatures - length allSignatures)") auto

text \<open>\<^verbatim>\<open>const maxSignatures = options.maxSignatures || 10000\<close>.\<close>

definition getAllSignaturesForAddress ::
  "Rpc \<Rightarrow> string \<Rightarrow> string option \<Rightarrow> nat option \<Rightarrow> error + ConfirmedSignatureInfo list" where
  "getAllSignaturesForAddress rpc address until maxSignatures =
    signaturesLoop rpc address until
      (case maxSignatures of None \<Rightarrow> 10000 | Some m \<Rightarrow> if m = 0 then 10000 else m)
      0 None []"

text \<open>
  The fetch of \<^verbatim>\<open>syncWalletTransactions\<close>: \<open>lastSignature\<close> is the stored cursor, or
  \<open>None\<close> under \<^verbatim>\<open>forceRefresh\<close> or for a wallet never synced.
\<close>

definition syncFetchSignatures ::
  "Rpc \<Rightarrow> string \<Rightarrow> string option \<Rightarrow> error + ConfirmedSignatureInfo list" where
  "syncFetchSignatures rpc walletAddr lastSignature =
    getAllSignaturesForAddress rpc walletAddr lastSignature (Some 5000)"

section \<open>Notions used to state the properties\<close>


text \<open>
  The provider's contract (\<^verbatim>\<open>limit \<le> 1000\<close> in its interface): an answer never holds more
  entries than the limit asked for.
\<close>

definition honoursLimit :: "Rpc \<Rightarrow> bool" where
  "honoursLimit rpc =
    (\<forall>n address limit before until batch.
       rpc n address limit before until = Inr batch \<longrightarrow> length batch \<le> limit)"

text \<open>The trades of one mint, in the order of the list.\<close>

definition ofMint :: "string \<Rightarrow> Trade list \<Rightarrow> Trade list" where
  "ofMint m ts = filter (\<lambda>t. tokenMint t = m) ts"

text \<open>
  The lifetime weighted average buy price of a mint: the SOL spent on all its buys over
  the tokens bought, 0 when nothing was bought.
\<close>

definition lifetimeAverageBuyPrice :: "Trade list \<Rightarrow> string \<Rightarrow> real" where
  "lifetimeAverageBuyPrice allTrades m =
    (let buys = filter (\<lambda>t. tradeType t = Buy) (ofMint m allTrades);
         bought = sum_list (map tokenAmount buys)
     in if bought > 0 then sum_list (map solAmount buys) / bought else 0)"

text \<open>The contribution of a sell: its proceeds less its amount at the lifetime average price.\<close>

definition contribution :: "Trade list \<Rightarrow> Trade \<Rightarrow> real" where
  "contribution allTrades sell =
    solAmount sell - tokenAmount sell * lifetimeAverageBuyPrice allTrades (tokenMint sell)"

text \<open>A trade falls inside the requested period (at the clock reading \<open>now\<close>).\<close>

definition inRequestedPeriod :: "int \<Rightarrow> Timeframe \<Rightarrow> Trade \<Rightarrow> bool" where
  "inRequestedPeriod now tf t =
    (case TIMEFRAME_SECONDS tf of None \<Rightarrow> True | Some secs \<Rightarrow> timestamp t \<ge> now - secs)"

text \<open>The sells of the period, in the order of the list.\<close>

definition periodSellsOf :: "int \<Rightarrow> Timeframe \<Rightarrow> Trade list \<Rightarrow> Trade list" where
  "periodSellsOf now tf allTrades =
    filter (\<lambda>t. tradeType t = Sell \<and> inRequestedPeriod now tf t) allTrades"

text \<open>The period PnL of a mint: the sum of the contributions of its sells of the period.\<close>

definition tokenPeriodPnL :: "int \<Rightarrow> Timeframe \<Rightarrow> Trade list \<Rightarrow> string \<Rightarrow> real" where
  "tokenPeriodPnL now tf allTrades m =
    sum_list (map (contribution allTrades) (ofMint m (periodSellsOf now tf allTrades)))"

text \<open>
  The win and loss counts as claimed for a period: the sells of the period with a positive
  contribution, and all its other sells.
\<close>

definition claimedWinCount :: "int \<Rightarrow> Timeframe \<Rightarrow> Trade list \<Rightarrow> nat" where
  "claimedWinCount now tf allTrades =
    length (filter (\<lambda>t. contribution allTrades t > 0) (periodSellsOf now tf allTrades))"

definition claimedLossCount :: "int \<Rightarrow> Timeframe \<Rightarrow> Trade list \<Rightarrow> nat" where
  "claimedLossCount now tf allTrades =
    length (filter (\<lambda>t. \<not> contribution allTrades t > 0) (periodSellsOf now tf allTrades))"

text \<open>
  The two results of one turn of the period loop, for a group and the all-time positions:
  the period PnL of the mint and its count of profitable sells.
\<close>

definition groupPnL :: "Position list \<Rightarrow> string \<times> Trade list \<Rightarrow> real" where
  "groupPnL aps e = fst (periodSellsResult (find (\<lambda>p. posTokenMint p = fst e) aps)
                      (filter (\<lambda>t. tradeType t = Sell) (snd e)))"

definition groupWins :: "Position list \<Rightarrow> string \<times> Trade list \<Rightarrow> nat" where
  "groupWins aps e = snd (periodSellsResult (find (\<lambda>p. posTokenMint p = fst e) aps)
                      (filter (\<lambda>t. tradeType t = Sell) (snd e)))"

text \<open>
  The open quantity of a mint along its trades: a buy adds its amount, a sell takes its
  amount away but never below zero (what a sell cannot match is dropped at that sell).
\<close>

definition openStep :: "real \<Rightarrow> Trade \<Rightarrow> real" where
  "openStep q t = (if tradeType t = Buy then q + tokenAmount t else max 0 (q - tokenAmount t))"

definition runningOpen :: "Trade list \<Rightarrow> real" where
  "runningOpen ts = foldl openStep 0 ts"

text \<open>Tokens bought less tokens sold, over a list of trades.\<close>

definition netBought :: "Trade list \<Rightarrow> real" where
  "netBought ts = sum_list (map tokenAmount (filter (\<lambda>t. tradeType t = Buy) ts))
                  - sum_list (map tokenAmount (filter (\<lambda>t. tradeType t \<noteq> Buy) ts))"

text \<open>No sell exceeds what was bought before it: every prefix has a non-negative net.\<close>

definition neverOversold :: "Trade list \<Rightarrow> bool" where
  "neverOversold ts = (\<forall>k \<le> length ts. netBought (take k ts) \<ge> 0)"

text \<open>The sum of \<open>remaining_amount\<close> over the persisted lots of a (wallet, mint) pair.\<close>

definition lotSum :: "Store \<Rightarrow> string \<Rightarrow> string \<Rightarrow> real" where
  "lotSum db wallet mint = sum_list (map remaining_amount (lotsOf db wallet mint))"

text \<open>The sum of what is left in a queue of buy lots.\<close>

definition openSum :: "BuyLot list \<Rightarrow> real" where
  "openSum lots = sum_list (map remaining lots)"


text \<open>
  A stable timestamp order of a mint group: a reordering of the group in non-decreasing
  timestamp order in which the trades of each timestamp stand in the order they have in
  the group.
\<close>

definition stableTimestampOrder :: "Trade list \<Rightarrow> Trade list \<Rightarrow> bool" where
  "stableTimestampOrder ord g =
    (mset ord = mset g \<and> sorted (map timestamp ord)
     \<and> (\<forall>k. filter (\<lambda>t. timestamp t = k) ord = filter (\<lambda>t. timestamp t = k) g))"

text \<open>
  Paging as the sync coordinator is described to do it. A page holds the stored cursor
  when the cursor is a non-empty signature and an entry of the page carries it; the
  entries ahead of the cursor are the new ones.
\<close>

definition stopsAt :: "string option \<Rightarrow> ConfirmedSignatureInfo list \<Rightarrow> bool" where
  "stopsAt until page = (\<exists>u. until = Some u \<and> u \<noteq> [] \<and> u \<in> sigSignature ` set page)"

definition entriesBefore :: "string option \<Rightarrow> ConfirmedSignatureInfo list \<Rightarrow> ConfirmedSignatureInfo list" where
  "entriesBefore until page = takeWhile (\<lambda>s. Some (sigSignature s) \<noteq> until) page"

text \<open>
  \<open>pagedFetch rpc address until cap n before acc r\<close>: with \<open>acc\<close> gathered so far, the run
  goes on from the \<open>n\<close>-th request with the cursor \<open>before\<close> and ends with \<open>r\<close>. Every
  request asks for 1000 entries older than \<open>before\<close> and passes the stored cursor \<open>until\<close>.
  The run ends at the cap, at a failure of the provider, at an empty page, at a page that
  holds the stored cursor (keeping the entries ahead of it) and at a short page; after a
  full page it goes on with the signature of the page's last entry as the next cursor.
\<close>

inductive pagedFetch ::
  "Rpc \<Rightarrow> string \<Rightarrow> string option \<Rightarrow> nat \<Rightarrow> nat \<Rightarrow> string option \<Rightarrow>
   ConfirmedSignatureInfo list \<Rightarrow> error + ConfirmedSignatureInfo list \<Rightarrow> bool"
  for rpc :: Rpc and address :: string and until :: "string option" and cap :: nat
where
  capReached:
    "cap \<le> length acc \<Longrightarrow> pagedFetch rpc address until cap n before acc (Inr acc)"
| providerFails:
    "length acc < cap \<Longrightarrow> rpc n address 1000 before until = Inl e \<Longrightarrow>
     pagedFetch rpc address until cap n before acc (Inl e)"
| emptyPage:
    "length acc < cap \<Longrightarrow> rpc n address 1000 before until = Inr [] \<Longrightarrow>
     pagedFetch rpc address until cap n before acc (Inr acc)"
| cursorFound:
    "length acc < cap \<Longrightarrow> rpc n address 1000 before until = Inr page \<Longrightarrow> page \<noteq> [] \<Longrightarrow>
     stopsAt until page \<Longrightarrow>
     pagedFetch rpc address until cap n before acc (Inr (acc @ entriesBefore until page))"
| shortPage:
    "length acc < cap \<Longrightarrow> rpc n address 1000 before until = Inr page \<Longrightarrow> page \<noteq> [] \<Longrightarrow>
     \<not> stopsAt until page \<Longrightarrow> length page < 1000 \<Longrightarrow>
     pagedFetch rpc address until cap n before acc (Inr (acc @ page))"
| nextPage:
    "length acc < cap \<Longrightarrow> rpc n address 1000 before until = Inr page \<Longrightarrow> page \<noteq> [] \<Longrightarrow>
     \<not> stopsAt until page \<Longrightarrow> 1000 \<le> length page \<Longrightarrow>
     pagedFetch rpc address until cap (Suc n) (Some (sigSignature (last page))) (acc @ page) r \<Longrightarrow>
     pagedFetch rpc address until cap n before acc r"

section \<open>Example inputs\<close>

text \<open>An empty store, and a trade of the mint \<open>''MINT''\<close> by the wallet \<open>''W''\<close>.\<close>

definition emptyStore :: Store where
  "emptyStore = \<lparr> tradesTable = [], positionsTable = [], lotsTable = [], followScoresTable = [] \<rparr>"

definition exTrade :: "string \<Rightarrow> int \<Rightarrow> TradeType \<Rightarrow> real \<Rightarrow> real \<Rightarrow> Trade" where
  "exTrade sig ts ty tokAmt solAmt =
    \<lparr> tradeId = sig @ ''-'' @ typeString ty @ ''-MINT'',
      walletAddress = ''W'', signature = sig, timestamp = ts, tradeType = ty,
      tokenMint = ''MINT'', tokenSymbol = None, tokenAmount = tokAmt, solAmount = solAmt,
      pricePerToken = solAmt / tokAmt, dex = ''Unknown'' \<rparr>"

text \<open>A provider that always answers with a full page of the same entry.\<close>

definition exSig :: ConfirmedSignatureInfo where
  "exSig = \<lparr> sigSignature = ''sig'', slot = 1, blockTime = Some 1700000000 \<rparr>"

definition fullPagesRpc :: Rpc where
  "fullPagesRpc n address limit before until = Inr (replicate limit exSig)"

text \<open>A store holding one round trip of the wallet \<open>''W''\<close>, sold 20 seconds after the buy.\<close>

definition quickDumpStore :: Store where
  "quickDumpStore =
    emptyStore\<lparr>tradesTable := [exTrade ''s1'' 1000 Buy 100 1, exTrade ''s2'' 1020 Sell 100 2]\<rparr>"

text \<open>
  One mint bought at an average price of 1 SOL, then sold twice: once at a profit of 1 SOL
  and once at a loss of 4 SOL.
\<close>

definition mixedTrades :: "Trade list" where
  "mixedTrades =
    [exTrade ''s1'' 100 Buy 10 10, exTrade ''s2'' 200 Sell 1 2, exTrade ''s3'' 300 Sell 5 1]"

text \<open>A sell that comes before the only buy of its mint.\<close>

definition sellFirstTrades :: "Trade list" where
  "sellFirstTrades = [exTrade ''s1'' 100 Sell 10 2, exTrade ''s2'' 200 Buy 10 1]"

text \<open>
  A swap of 1 SOL for 150 USDC by the wallet \<open>''W''\<close>, as the provider reports it: the
  native transfer, the token transfer and the balance changes of the wallet's accounts.
  The second record reports the same swap through a swap event only.
\<close>

definition usdcSwapTx :: HeliusEnhancedTransaction where
  "usdcSwapTx =
    \<lparr> txSignature = ''sigA'', txTimestamp = 1700000000, txType = ''SWAP'', txSource = ''JUPITER'',
      nativeTransfers =
        [\<lparr> ntFromUserAccount = ''W'', ntToUserAccount = ''POOL'', ntAmount = 1000000000 \<rparr>],
      tokenTransfers =
        [\<lparr> ttFromUserAccount = ''POOL'', ttToUserAccount = ''W'', ttTokenAmount = 150,
           ttMint = USDC_MINT \<rparr>],
      accountData =
        [\<lparr> account = ''W'', nativeBalanceChange = - 1000000000,
           tokenBalanceChanges =
             [\<lparr> tbcMint = USDC_MINT,
                tbcRawTokenAmount = Some \<lparr> rawAmount = 150000000, decimals = 6 \<rparr>,
                tbcUserAccount = ''W'' \<rparr>] \<rparr>],
      transactionError = None,
      swap = None \<rparr>"

definition usdcSwapEventTx :: HeliusEnhancedTransaction where
  "usdcSwapEventTx =
    \<lparr> txSignature = ''sigB'', txTimestamp = 1700000000, txType = ''SWAP'', txSource = ''JUPITER'',
      nativeTransfers = [], tokenTransfers = [], accountData = [],
      transactionError = None,
      swap = Some \<lparr> nativeInput = Some \<lparr> nfAccount = ''W'', nfAmount = 1000000000 \<rparr>,
                    nativeOutput = None, tokenInputs = [],
                    tokenOutputs = [\<lparr> swMint = USDC_MINT,
                       swRawTokenAmount = Some \<lparr> rawAmount = 150000000, decimals = 6 \<rparr> \<rparr>] \<rparr> \<rparr>"

text \<open>A sell and a buy of one mint at the same timestamp, the sell first in the list.\<close>

definition tiedTrades :: "Trade list" where
  "tiedTrades = [exTrade ''s2'' 100 Sell 10 2, exTrade ''s1'' 100 Buy 10 1]"

text \<open>
  A provider with one full page: it answers the first request with a full page and the
  request that carries the signature of that page's last entry with an empty page. And a
  provider holding three entries that answers only requests carrying the stored cursor
  \<open>''b''\<close>.
\<close>

definition cursorRpc :: Rpc where
  "cursorRpc n address limit before until =
    (case before of
       None \<Rightarrow> Inr (replicate limit exSig)
     | Some b \<Rightarrow> if b = sigSignature exSig then Inr [] else Inl (ProviderError ''unknown cursor''))"

definition sigNamed :: "string \<Rightarrow> ConfirmedSignatureInfo" where
  "sigNamed s = \<lparr> sigSignature = s, slot = 1, blockTime = Some 1700000000 \<rparr>"

definition storedCursorRpc :: Rpc where
  "storedCursorRpc n address limit before until =
    (if until = Some ''b'' then Inr (take limit [sigNamed ''a'', sigNamed ''b'', sigNamed ''c''])
     else Inl (ProviderError ''no cursor''))"

section \<open>Facts about the building blocks\<close>

subsection \<open>The map operations\<close>

lemma map_of_mapSet: "map_of (mapSet k v m) = (map_of m)(k \<mapsto> v)"
  by (induction m) (auto simp: fun_eq_iff)

lemma keys_mapSet:
  "map fst (mapSet k v m) = (if k \<in> fst ` set m then map fst m else map fst m @ [k])"
  by (induction m) auto

lemma distinct_mapSet: "distinct (map fst m) \<Longrightarrow> distinct (map fst (mapSet k v m))"
  by (simp add: keys_mapSet)

subsection \<open>Grouping by mint\<close>

lemma map_of_groupStep:
  "map_of (groupStep g t) =
    (map_of g)(tokenMint t \<mapsto> (case map_of g (tokenMint t) of None \<Rightarrow> [] | Some old \<Rightarrow> old) @ [t])"
  by (simp add: groupStep_def mapGet_def map_of_mapSet)

lemma distinct_groupStep: "distinct (map fst g) \<Longrightarrow> distinct (map fst (groupStep g t))"
  by (simp add: groupStep_def distinct_mapSet)

lemma mset_concat_mapSet:
  "mset (concat (map snd (mapSet k ((case map_of g k of None \<Rightarrow> [] | Some old \<Rightarrow> old) @ [t]) g)))
     = mset (concat (map snd g)) + {#t#}"
  by (induction g) auto

lemma mset_concat_groupStep:
  "mset (concat (map snd (groupStep g t))) = mset (concat (map snd g)) + {#t#}"
  unfolding groupStep_def Let_def mapGet_def by (rule mset_concat_mapSet)

lemma distinct_foldl_groupStep:
  "distinct (map fst g) \<Longrightarrow> distinct (map fst (foldl groupStep g ts))"
  by (induction ts arbitrary: g) (simp_all add: distinct_groupStep)

lemma map_of_foldl_groupStep:
  "map_of (foldl groupStep g ts) m =
    (if ofMint m ts = [] then map_of g m
     else Some ((case map_of g m of None \<Rightarrow> [] | Some old \<Rightarrow> old) @ ofMint m ts))"
proof (induction ts arbitrary: g)
  case Nil
  show ?case by (simp add: ofMint_def)
next
  case (Cons t ts)
  show ?case
    by (simp add: Cons.IH map_of_groupStep ofMint_def split: option.splits)
qed

lemma distinct_groupByToken: "distinct (map fst (groupByToken ts))"
  by (simp add: groupByToken_def distinct_foldl_groupStep)

lemma map_of_groupByToken:
  "map_of (groupByToken ts) m = (if ofMint m ts = [] then None else Some (ofMint m ts))"
  by (simp add: groupByToken_def map_of_foldl_groupStep)

lemma groupByToken_member:
  "(m, g) \<in> set (groupByToken ts) \<longleftrightarrow> g = ofMint m ts \<and> g \<noteq> []"
proof -
  have "(m, g) \<in> set (groupByToken ts) \<longleftrightarrow> map_of (groupByToken ts) m = Some g"
    using distinct_groupByToken[of ts] by simp
  then show ?thesis by (auto simp: map_of_groupByToken)
qed

lemma mset_concat_foldl_groupStep:
  "mset (concat (map snd (foldl groupStep g ts))) = mset (concat (map snd g)) + mset ts"
  by (induction ts arbitrary: g) (simp_all add: mset_concat_groupStep)

lemma mset_concat_groupByToken: "mset (concat (map snd (groupByToken ts))) = mset ts"
  by (simp add: groupByToken_def mset_concat_foldl_groupStep)

lemma sum_list_concat_groups:
  fixes f :: "Trade \<Rightarrow> 'a::comm_monoid_add"
  shows "sum_list (map (\<lambda>e. sum_list (map f (snd e))) gs) = sum_list (map f (concat (map snd gs)))"
  by (induction gs) auto

lemma sum_list_mset_cong:
  fixes f :: "'b \<Rightarrow> 'a::comm_monoid_add"
  assumes "mset xs = mset ys"
  shows "sum_list (map f xs) = sum_list (map f ys)"
proof -
  have "sum_list (map f xs) = sum_mset (image_mset f (mset xs))"
    by (metis mset_map sum_mset_sum_list)
  also have "\<dots> = sum_mset (image_mset f (mset ys))" using assms by simp
  also have "\<dots> = sum_list (map f ys)" by (metis mset_map sum_mset_sum_list)
  finally show ?thesis .
qed

lemma sum_over_groups:
  fixes f :: "Trade \<Rightarrow> 'a::comm_monoid_add"
  shows "sum_list (map (\<lambda>e. sum_list (map f (snd e))) (groupByToken ts)) = sum_list (map f ts)"
  unfolding sum_list_concat_groups
  by (rule sum_list_mset_cong) (rule mset_concat_groupByToken)

subsection \<open>Totals of the FIFO loop\<close>

lemma matchLots_cases:
  obtains lots' r c where "matchLots lots s c0 = (lots', r, c)"
  by (cases "matchLots lots s c0") auto

lemma fifoStep_totals:
  "accBought (fifoStep acc t) = accBought acc + (if tradeType t = Buy then tokenAmount t else 0)"
  "accCostBasis (fifoStep acc t) = accCostBasis acc + (if tradeType t = Buy then solAmount t else 0)"
  "accSold (fifoStep acc t) = accSold acc + (if tradeType t = Buy then 0 else tokenAmount t)"
  "accProceeds (fifoStep acc t) = accProceeds acc + (if tradeType t = Buy then 0 else solAmount t)"
  by (auto simp: fifoStep_def Let_def split: prod.splits)

lemma sum_list_if_filter:
  fixes f :: "'b \<Rightarrow> 'a::comm_monoid_add"
  shows "sum_list (map (\<lambda>x. if P x then f x else 0) xs) = sum_list (map f (filter P xs))"
  by (induction xs) auto

lemma foldl_fifoStep_totals:
  "accBought (foldl fifoStep acc ts) =
     accBought acc + sum_list (map tokenAmount (filter (\<lambda>t. tradeType t = Buy) ts))"
  "accCostBasis (foldl fifoStep acc ts) =
     accCostBasis acc + sum_list (map solAmount (filter (\<lambda>t. tradeType t = Buy) ts))"
  "accSold (foldl fifoStep acc ts) =
     accSold acc + sum_list (map tokenAmount (filter (\<lambda>t. tradeType t \<noteq> Buy) ts))"
  "accProceeds (foldl fifoStep acc ts) =
     accProceeds acc + sum_list (map solAmount (filter (\<lambda>t. tradeType t \<noteq> Buy) ts))"
  by (induction ts arbitrary: acc) (simp_all add: fifoStep_totals)

lemma mset_filter_sortByTimestamp:
  "mset (filter P (sortByTimestamp ts)) = mset (filter P ts)"
  by (simp add: sortByTimestamp_def)

lemma sum_filter_sortByTimestamp:
  fixes f :: "Trade \<Rightarrow> real"
  shows "sum_list (map f (filter P (sortByTimestamp ts))) = sum_list (map f (filter P ts))"
  by (rule sum_list_mset_cong) (rule mset_filter_sortByTimestamp)

lemma buildPosition_fields:
  "posTokenMint (buildPosition w m g) = m"
  "posWalletAddress (buildPosition w m g) = w"
  "totalBought (buildPosition w m g) = sum_list (map tokenAmount (filter (\<lambda>t. tradeType t = Buy) g))"
  "totalSold (buildPosition w m g) = sum_list (map tokenAmount (filter (\<lambda>t. tradeType t \<noteq> Buy) g))"
  "totalCostBasis (buildPosition w m g) = sum_list (map solAmount (filter (\<lambda>t. tradeType t = Buy) g))"
  by (simp_all add: buildPosition_def Let_def foldl_fifoStep_totals fifoInit_def sum_filter_sortByTimestamp)

lemma averageBuyPrice_buildPosition:
  "averageBuyPrice (buildPosition w m (ofMint m allTrades)) = lifetimeAverageBuyPrice allTrades m"
  by (simp add: buildPosition_def Let_def foldl_fifoStep_totals fifoInit_def
      sum_filter_sortByTimestamp lifetimeAverageBuyPrice_def)

subsection \<open>The positions returned\<close>

lemma loopPositions_foldl:
  "loopPositions (foldl (fifoTokenStep w) st gs) =
     loopPositions st @ map (\<lambda>e. buildPosition w (fst e) (snd e)) gs"
  by (induction gs arbitrary: st) (simp_all add: fifoTokenStep_def Let_def)

lemma positions_calculateFIFOPnL:
  "fst (fst (calculateFIFOPnL w ts db)) =
     map (\<lambda>e. buildPosition w (fst e) (snd e)) (groupByToken ts)"
  by (simp add: calculateFIFOPnL_def Let_def loopPositions_foldl)

lemma find_key_map_of:
  "distinct (map fst gs) \<Longrightarrow>
   find (\<lambda>e. fst e = m) gs = (case map_of gs m of None \<Rightarrow> None | Some g \<Rightarrow> Some (m, g))"
  by (induction gs) (auto split: option.splits)

lemma find_map_key:
  "find P (map f xs) = map_option f (find (\<lambda>x. P (f x)) xs)"
  by (induction xs) auto

lemma find_position:
  assumes "ofMint m ts \<noteq> []"
  shows "find (\<lambda>p. posTokenMint p = m) (fst (fst (calculateFIFOPnL w ts db)))
          = Some (buildPosition w m (ofMint m ts))"
proof -
  have "find (\<lambda>p. posTokenMint p = m) (map (\<lambda>e. buildPosition w (fst e) (snd e)) (groupByToken ts))
      = map_option (\<lambda>e. buildPosition w (fst e) (snd e)) (find (\<lambda>e. fst e = m) (groupByToken ts))"
    by (simp add: find_map_key buildPosition_fields)
  also have "find (\<lambda>e. fst e = m) (groupByToken ts) = Some (m, ofMint m ts)"
    using assms by (simp add: find_key_map_of distinct_groupByToken map_of_groupByToken)
  finally show ?thesis by (simp add: positions_calculateFIFOPnL)
qed


subsection \<open>The period loop\<close>

lemma foldl_periodSellStep:
  "foldl (periodSellStep avg) st sells =
    (fst st + sum_list (map (sellProfitAt avg) sells),
     snd st + length (filter (\<lambda>t. sellProfitAt avg t > 0) sells))"
  by (induction sells arbitrary: st) (simp_all add: periodSellStep_def Let_def)

lemma periodSellsResult_Some:
  "periodSellsResult (Some fp) sells =
    (sum_list (map (sellProfitAt (averageBuyPrice fp)) sells),
     length (filter (\<lambda>t. sellProfitAt (averageBuyPrice fp) t > 0) sells))"
  by (simp add: periodSellsResult_def foldl_periodSellStep)

lemma periodTokenStep_fields:
  "plTotalRealizedPnL (periodTokenStep w aps st e) = plTotalRealizedPnL st + groupPnL aps e"
  "plWinCount (periodTokenStep w aps st e) =
     plWinCount st + (if groupPnL aps e > 0 then groupWins aps e else 0)"
  "plLossCount (periodTokenStep w aps st e) =
     plLossCount st + (if groupPnL aps e < 0
        then length (filter (\<lambda>t. tradeType t = Sell) (snd e)) - groupWins aps e else 0)"
  by (simp_all add: periodTokenStep_def Let_def groupPnL_def groupWins_def)

lemma foldl_periodTokenStep:
  "plTotalRealizedPnL (foldl (periodTokenStep w aps) st gs) =
     plTotalRealizedPnL st + sum_list (map (groupPnL aps) gs)"
  "plWinCount (foldl (periodTokenStep w aps) st gs) =
     plWinCount st + sum_list (map (\<lambda>e. if groupPnL aps e > 0 then groupWins aps e else 0) gs)"
  "plLossCount (foldl (periodTokenStep w aps) st gs) =
     plLossCount st + sum_list (map (\<lambda>e. if groupPnL aps e < 0
        then length (filter (\<lambda>t. tradeType t = Sell) (snd e)) - groupWins aps e else 0) gs)"
  by (induction gs arbitrary: st) (simp_all add: periodTokenStep_fields)

lemma tradesInPeriod_filter:
  "tradesInPeriod now tf allTrades = filter (inRequestedPeriod now tf) allTrades"
proof -
  have "timestamp t \<ge> periodStartOf now tf \<longleftrightarrow> inRequestedPeriod now tf t"
    if "TIMEFRAME_SECONDS tf = Some secs" for t secs
    using that by (simp add: periodStartOf_def inRequestedPeriod_def)
  moreover have "inRequestedPeriod now tf t" if "TIMEFRAME_SECONDS tf = None" for t
    using that by (simp add: inRequestedPeriod_def)
  ultimately show ?thesis
    by (cases "TIMEFRAME_SECONDS tf") (simp_all add: tradesInPeriod_def cong: filter_cong)
qed

lemma ofMint_filter: "ofMint m (filter P ts) = filter P (ofMint m ts)"
  by (simp add: ofMint_def conj_commute)

lemma ofMint_mint: "t \<in> set (ofMint m ts) \<Longrightarrow> tokenMint t = m"
  by (simp add: ofMint_def)

text \<open>What the loop computes for one mint of the period, in terms of the trade list.\<close>

lemma group_of_period:
  assumes "e \<in> set (groupByToken (tradesInPeriod now tf allTrades))"
  shows "groupPnL (fst (fst (calculateFIFOPnL w allTrades db))) e
          = sum_list (map (\<lambda>t. if tradeType t = Sell then contribution allTrades t else 0) (snd e))"
    and "groupPnL (fst (fst (calculateFIFOPnL w allTrades db))) e
          = tokenPeriodPnL now tf allTrades (fst e)"
    and "groupWins (fst (fst (calculateFIFOPnL w allTrades db))) e
          = length (filter (\<lambda>t. tradeType t = Sell \<and> contribution allTrades t > 0) (snd e))"
proof -
  obtain m g where e: "e = (m, g)" by (cases e)
  let ?inP = "tradesInPeriod now tf allTrades"
  have "g = ofMint m ?inP \<and> g \<noteq> []"
    using assms groupByToken_member[of m g ?inP] unfolding e by blast
  then have g: "g = ofMint m ?inP" and ne: "g \<noteq> []" by blast+
  have "ofMint m allTrades \<noteq> []"
    using ne unfolding g tradesInPeriod_filter ofMint_filter by auto
  then have f: "find (\<lambda>p. posTokenMint p = m) (fst (fst (calculateFIFOPnL w allTrades db)))
      = Some (buildPosition w m (ofMint m allTrades))"
    by (rule find_position)
  have c: "sellProfitAt (lifetimeAverageBuyPrice allTrades m) t = contribution allTrades t"
    if "t \<in> set g" for t
    using that ofMint_mint[of t m ?inP] by (simp add: g sellProfitAt_def contribution_def)
  have pnl: "groupPnL (fst (fst (calculateFIFOPnL w allTrades db))) e
      = sum_list (map (contribution allTrades) (filter (\<lambda>t. tradeType t = Sell) g))"
    unfolding groupPnL_def e fst_conv snd_conv f periodSellsResult_Some averageBuyPrice_buildPosition
    by (rule arg_cong[where f=sum_list], rule map_cong) (auto simp: c)
  show "groupPnL (fst (fst (calculateFIFOPnL w allTrades db))) e
          = sum_list (map (\<lambda>t. if tradeType t = Sell then contribution allTrades t else 0) (snd e))"
    using pnl unfolding e by (simp add: sum_list_if_filter)
  show "groupPnL (fst (fst (calculateFIFOPnL w allTrades db))) e
          = tokenPeriodPnL now tf allTrades (fst e)"
    using pnl unfolding tokenPeriodPnL_def periodSellsOf_def e fst_conv g tradesInPeriod_filter ofMint_def
    by (simp add: conj_commute conj_left_commute)
  have "length (filter (\<lambda>t. sellProfitAt (lifetimeAverageBuyPrice allTrades m) t > 0)
          (filter (\<lambda>t. tradeType t = Sell) g))
      = length (filter (\<lambda>t. tradeType t = Sell \<and> contribution allTrades t > 0) g)"
    unfolding filter_filter
    by (rule arg_cong[where f=length], rule filter_cong) (auto simp: c)
  then show "groupWins (fst (fst (calculateFIFOPnL w allTrades db))) e
          = length (filter (\<lambda>t. tradeType t = Sell \<and> contribution allTrades t > 0) (snd e))"
    unfolding groupWins_def e fst_conv snd_conv f periodSellsResult_Some averageBuyPrice_buildPosition
    by simp
qed

lemma summary_fields:
  "totalRealizedPnL (fst (generatePnLSummary now w allTrades tf db)) =
     sum_list (map (groupPnL (fst (fst (calculateFIFOPnL w allTrades db))))
       (groupByToken (tradesInPeriod now tf allTrades)))"
  "sumWinCount (fst (generatePnLSummary now w allTrades tf db)) =
     sum_list (map (\<lambda>e. if groupPnL (fst (fst (calculateFIFOPnL w allTrades db))) e > 0
                         then groupWins (fst (fst (calculateFIFOPnL w allTrades db))) e else 0)
       (groupByToken (tradesInPeriod now tf allTrades)))"
  "lossCount (fst (generatePnLSummary now w allTrades tf db)) =
     sum_list (map (\<lambda>e. if groupPnL (fst (fst (calculateFIFOPnL w allTrades db))) e < 0
        then length (filter (\<lambda>t. tradeType t = Sell) (snd e))
             - groupWins (fst (fst (calculateFIFOPnL w allTrades db))) e else 0)
       (groupByToken (tradesInPeriod now tf allTrades)))"
  by (simp_all add: generatePnLSummary_def Let_def foldl_periodTokenStep)

lemma sum_list_indicator: "sum_list (map (\<lambda>x. if P x then 1 else 0) xs) = length (filter P xs)"
  by (induction xs) auto

lemma length_filter_diff:
  "length (filter Q xs) - length (filter (\<lambda>x. Q x \<and> P x) xs) = length (filter (\<lambda>x. Q x \<and> \<not> P x) xs)"
proof -
  have "length (filter (\<lambda>x. Q x \<and> P x) xs) + length (filter (\<lambda>x. Q x \<and> \<not> P x) xs)
      = length (filter Q xs)"
    by (induction xs) auto
  then show ?thesis by arith
qed

lemma group_counts:
  assumes "e \<in> set (groupByToken (tradesInPeriod now tf allTrades))"
  shows "(if groupPnL (fst (fst (calculateFIFOPnL w allTrades db))) e > 0
          then groupWins (fst (fst (calculateFIFOPnL w allTrades db))) e else 0)
        = sum_list (map (\<lambda>t. if tradeType t = Sell \<and> contribution allTrades t > 0
                                  \<and> tokenPeriodPnL now tf allTrades (tokenMint t) > 0
                               then 1 else 0) (snd e))"
    and "(if groupPnL (fst (fst (calculateFIFOPnL w allTrades db))) e < 0
          then length (filter (\<lambda>t. tradeType t = Sell) (snd e))
               - groupWins (fst (fst (calculateFIFOPnL w allTrades db))) e else 0)
        = sum_list (map (\<lambda>t. if tradeType t = Sell \<and> \<not> contribution allTrades t > 0
                                  \<and> tokenPeriodPnL now tf allTrades (tokenMint t) < 0
                               then 1 else 0) (snd e))"
proof -
  let ?aps = "fst (fst (calculateFIFOPnL w allTrades db))"
  have mint: "tokenMint t = fst e" if "t \<in> set (snd e)" for t
  proof -
    have "snd e = ofMint (fst e) (tradesInPeriod now tf allTrades)"
      using assms groupByToken_member[of "fst e" "snd e"] by simp
    with that show ?thesis by (metis ofMint_mint)
  qed
  note pnl = group_of_period(2)[OF assms, of w db]
  note wins = group_of_period(3)[OF assms, of w db]
  have "length (filter (\<lambda>t. tradeType t = Sell \<and> contribution allTrades t > 0
            \<and> tokenPeriodPnL now tf allTrades (tokenMint t) > 0) (snd e))
        = (if tokenPeriodPnL now tf allTrades (fst e) > 0
           then length (filter (\<lambda>t. tradeType t = Sell \<and> contribution allTrades t > 0) (snd e))
           else 0)"
    by (auto simp: mint cong: filter_cong)
  then show "(if groupPnL ?aps e > 0 then groupWins ?aps e else 0)
        = sum_list (map (\<lambda>t. if tradeType t = Sell \<and> contribution allTrades t > 0
                                  \<and> tokenPeriodPnL now tf allTrades (tokenMint t) > 0
                               then 1 else 0) (snd e))"
    unfolding sum_list_indicator pnl wins by simp
  have "length (filter (\<lambda>t. tradeType t = Sell \<and> \<not> contribution allTrades t > 0
            \<and> tokenPeriodPnL now tf allTrades (tokenMint t) < 0) (snd e))
        = (if tokenPeriodPnL now tf allTrades (fst e) < 0
           then length (filter (\<lambda>t. tradeType t = Sell \<and> \<not> contribution allTrades t > 0) (snd e))
           else 0)"
    by (auto simp: mint cong: filter_cong)
  then show "(if groupPnL ?aps e < 0
          then length (filter (\<lambda>t. tradeType t = Sell) (snd e)) - groupWins ?aps e else 0)
        = sum_list (map (\<lambda>t. if tradeType t = Sell \<and> \<not> contribution allTrades t > 0
                                  \<and> tokenPeriodPnL now tf allTrades (tokenMint t) < 0
                               then 1 else 0) (snd e))"
    unfolding sum_list_indicator pnl wins length_filter_diff by simp
qed

lemma filter_period_sells:
  "filter (\<lambda>t. tradeType t = Sell \<and> P t) (tradesInPeriod now tf allTrades)
    = filter P (periodSellsOf now tf allTrades)"
  by (auto simp: tradesInPeriod_filter periodSellsOf_def intro: filter_cong)

subsection \<open>Open lots along the FIFO loop\<close>

lemma matchLots_open:
  assumes "\<forall>lot\<in>set lots. 0 \<le> remaining lot" and "0 \<le> s"
    and "matchLots lots s c = (lots', r, c')"
  shows "(\<forall>lot\<in>set lots'. 0 \<le> remaining lot) \<and> openSum lots' = max 0 (openSum lots - s)"
  using assms
proof (induction lots arbitrary: s c lots' r c')
  case Nil
  then show ?case by (simp add: openSum_def)
next
  case (Cons lot lots)
  have nn: "0 \<le> openSum lots" using Cons.prems(1) unfolding openSum_def
    by (intro sum_list_nonneg) auto
  have l0: "0 \<le> remaining lot" using Cons.prems(1) by simp
  show ?case
  proof (cases "s \<le> 0")
    case True
    with Cons.prems nn l0 show ?thesis by (auto simp: openSum_def)
  next
    case spos: False
    show ?thesis
    proof (cases "remaining lot \<le> 0")
      case True
      obtain ls r1 c1 where m: "matchLots lots s c = (ls, r1, c1)"
        by (cases "matchLots lots s c") auto
      from Cons.IH[OF _ Cons.prems(2) m] Cons.prems(1)
      have ih: "(\<forall>lot\<in>set ls. 0 \<le> remaining lot) \<and> openSum ls = max 0 (openSum lots - s)" by simp
      from Cons.prems(3) spos True m have "lots' = lot # ls" by simp
      with ih True l0 show ?thesis by (simp add: openSum_def)
    next
      case False
      let ?m = "min (remaining lot) s"
      obtain ls r1 c1 where m: "matchLots lots (s - ?m) (c + ?m * price lot) = (ls, r1, c1)"
        by (cases "matchLots lots (s - ?m) (c + ?m * price lot)") auto
      have "0 \<le> s - ?m" by simp
      from Cons.IH[OF _ this m] Cons.prems(1)
      have ih: "(\<forall>lot\<in>set ls. 0 \<le> remaining lot) \<and> openSum ls = max 0 (openSum lots - (s - ?m))"
        by simp
      from Cons.prems(3) spos False m
      have "lots' = lot\<lparr>remaining := remaining lot - ?m\<rparr> # ls" by (simp add: Let_def)
      with ih nn show ?thesis by (auto simp: openSum_def min_def max_def)
    qed
  qed
qed

lemma fifoStep_open:
  assumes "\<forall>lot\<in>set (buyLots acc). 0 \<le> remaining lot" and "0 \<le> tokenAmount t"
  shows "(\<forall>lot\<in>set (buyLots (fifoStep acc t)). 0 \<le> remaining lot)
       \<and> openSum (buyLots (fifoStep acc t)) = openStep (openSum (buyLots acc)) t"
proof (cases "tradeType t = Buy")
  case True
  with assms show ?thesis by (simp add: fifoStep_def openStep_def openSum_def)
next
  case False
  obtain ls r c where m: "matchLots (buyLots acc) (tokenAmount t) 0 = (ls, r, c)"
    by (cases "matchLots (buyLots acc) (tokenAmount t) 0") auto
  from matchLots_open[OF assms m] False m show ?thesis
    by (simp add: fifoStep_def openStep_def Let_def)
qed

lemma foldl_fifoStep_open:
  assumes "\<forall>lot\<in>set (buyLots acc). 0 \<le> remaining lot" and "\<forall>t\<in>set ts. 0 \<le> tokenAmount t"
  shows "(\<forall>lot\<in>set (buyLots (foldl fifoStep acc ts)). 0 \<le> remaining lot)
       \<and> openSum (buyLots (foldl fifoStep acc ts)) = foldl openStep (openSum (buyLots acc)) ts"
  using assms
proof (induction ts arbitrary: acc)
  case Nil
  then show ?case by simp
next
  case (Cons t ts)
  have s: "(\<forall>lot\<in>set (buyLots (fifoStep acc t)). 0 \<le> remaining lot)
       \<and> openSum (buyLots (fifoStep acc t)) = openStep (openSum (buyLots acc)) t"
    using Cons.prems by (intro fifoStep_open) auto
  from Cons.IH[of "fifoStep acc t"] s Cons.prems(2) show ?case by simp
qed

lemma sum_filter_pos:
  fixes f :: "'a \<Rightarrow> real"
  assumes "\<forall>x\<in>set xs. 0 \<le> f x"
  shows "sum_list (map f (filter (\<lambda>x. f x > 0) xs)) = sum_list (map f xs)"
  using assms by (induction xs) auto

lemma openLotRows_sum:
  assumes "\<forall>t\<in>set g. 0 \<le> tokenAmount t"
  shows "sum_list (map remaining_amount (openLotRows w m g)) = runningOpen (sortByTimestamp g)"
proof -
  have a: "\<forall>t\<in>set (sortByTimestamp g). 0 \<le> tokenAmount t"
    using assms by (simp add: sortByTimestamp_def)
  from foldl_fifoStep_open[of fifoInit "sortByTimestamp g"] a
  have inv: "(\<forall>lot\<in>set (buyLots (tokenFifo g)). 0 \<le> remaining lot)"
    and s: "openSum (buyLots (tokenFifo g)) = runningOpen (sortByTimestamp g)"
    by (simp_all add: tokenFifo_def fifoInit_def runningOpen_def openSum_def)
  have "sum_list (map remaining_amount (openLotRows w m g))
      = sum_list (map remaining (filter (\<lambda>lot. remaining lot > 0) (buyLots (tokenFifo g))))"
    by (simp add: openLotRows_def lotRow_def comp_def)
  also have "\<dots> = openSum (buyLots (tokenFifo g))"
    unfolding openSum_def using inv by (rule sum_filter_pos)
  finally show ?thesis using s by simp
qed

subsection \<open>The running balance\<close>

lemma netBought_Cons:
  "netBought (t # ts) = (if tradeType t = Buy then tokenAmount t else - tokenAmount t) + netBought ts"
  by (simp add: netBought_def)

lemma netBought_snoc:
  "netBought (ts @ [t]) = netBought ts + (if tradeType t = Buy then tokenAmount t else - tokenAmount t)"
  by (simp add: netBought_def)

lemma foldl_openStep_ge:
  assumes "0 \<le> q" and "\<forall>t\<in>set ts. 0 \<le> tokenAmount t"
  shows "0 \<le> foldl openStep q ts \<and> q + netBought ts \<le> foldl openStep q ts"
  using assms
proof (induction ts arbitrary: q)
  case Nil
  then show ?case by (simp add: netBought_def)
next
  case (Cons t ts)
  have q': "0 \<le> openStep q t" and d: "q + (if tradeType t = Buy then tokenAmount t else - tokenAmount t) \<le> openStep q t"
    using Cons.prems by (auto simp: openStep_def)
  from Cons.IH[OF q'] Cons.prems(2)
  have "0 \<le> foldl openStep (openStep q t) ts"
    and "openStep q t + netBought ts \<le> foldl openStep (openStep q t) ts" by simp_all
  with d show ?case by (simp add: netBought_Cons)
qed

lemma runningOpen_ge:
  assumes "\<forall>t\<in>set ts. 0 \<le> tokenAmount t"
  shows "max 0 (netBought ts) \<le> runningOpen ts"
  using foldl_openStep_ge[of 0 ts] assms by (simp add: runningOpen_def)

lemma neverOversold_butlast: "neverOversold (ts @ [t]) \<Longrightarrow> neverOversold ts"
  unfolding neverOversold_def
proof (intro allI impI)
  fix k assume a: "\<forall>k\<le>length (ts @ [t]). 0 \<le> netBought (take k (ts @ [t]))" and k: "k \<le> length ts"
  from k have "k \<le> length (ts @ [t])" by simp
  with a have "0 \<le> netBought (take k (ts @ [t]))" by blast
  moreover have "take k (ts @ [t]) = take k ts" using k by simp
  ultimately show "0 \<le> netBought (take k ts)" by simp
qed

lemma neverOversold_whole: "neverOversold ts \<Longrightarrow> 0 \<le> netBought ts"
  unfolding neverOversold_def by (drule spec[of _ "length ts"]) simp

lemma runningOpen_neverOversold:
  "neverOversold ts \<Longrightarrow> runningOpen ts = netBought ts"
proof (induction ts rule: rev_induct)
  case Nil
  show ?case by (simp add: runningOpen_def netBought_def)
next
  case (snoc t ts)
  have ih: "runningOpen ts = netBought ts"
    using snoc.IH neverOversold_butlast[OF snoc.prems] by simp
  have nn: "0 \<le> netBought (ts @ [t])" using neverOversold_whole[OF snoc.prems] .
  have "runningOpen (ts @ [t]) = openStep (runningOpen ts) t" by (simp add: runningOpen_def)
  with ih nn show ?case by (auto simp: openStep_def netBought_snoc)
qed

subsection \<open>The store after a run of the FIFO engine\<close>

lemma foldl_insertLot:
  "foldl (\<lambda>db row. insertLot row db) db rows = db\<lparr>lotsTable := lotsTable db @ rows\<rparr>"
  by (induction rows arbitrary: db) (simp_all add: insertLot_def)

lemma fifoTokenStep_db:
  "lotsTable (loopDb (fifoTokenStep w st e)) =
     lotsTable (loopDb st) @ openLotRows w (fst e) (snd e)"
  "positionsTable (loopDb (fifoTokenStep w st e)) =
     upsertRow (positionRow (buildPosition w (fst e) (snd e))) (positionsTable (loopDb st))"
  by (simp_all add: fifoTokenStep_def Let_def foldl_insertLot upsertPosition_def)

lemma lotsTable_foldl:
  "lotsTable (loopDb (foldl (fifoTokenStep w) st gs)) =
     lotsTable (loopDb st) @ concat (map (\<lambda>e. openLotRows w (fst e) (snd e)) gs)"
  by (induction gs arbitrary: st) (simp_all add: fifoTokenStep_db)

lemma filter_openLotRows:
  "filter (\<lambda>l. wallet_address l = w \<and> token_mint l = m) (openLotRows w k g)
     = (if k = m then openLotRows w k g else [])"
  by (auto simp: openLotRows_def lotRow_def filter_map comp_def)

lemma concat_pick:
  assumes "distinct (map fst gs)"
  shows "concat (map (\<lambda>e. if fst e = m then F e else []) gs)
          = (case map_of gs m of None \<Rightarrow> [] | Some g \<Rightarrow> F (m, g))"
  using assms
proof (induction gs)
  case Nil
  show ?case by simp
next
  case (Cons e gs)
  obtain k g where e: "e = (k, g)" by (cases e)
  show ?case
  proof (cases "k = m")
    case True
    with Cons.prems e have "map_of gs m = None" by (simp add: map_of_eq_None_iff)
    with Cons True e show ?thesis by simp
  next
    case False
    with Cons e show ?thesis by simp
  qed
qed

lemma lotsOf_calculateFIFOPnL:
  "lotsOf (snd (calculateFIFOPnL w ts db)) w m
     = (if ofMint m ts = [] then [] else openLotRows w m (ofMint m ts))"
proof -
  have "lotsOf (snd (calculateFIFOPnL w ts db)) w m
      = concat (map (\<lambda>e. filter (\<lambda>l. wallet_address l = w \<and> token_mint l = m)
                           (openLotRows w (fst e) (snd e))) (groupByToken ts))"
    by (simp add: lotsOf_def calculateFIFOPnL_def Let_def lotsTable_foldl
        deletePositionsByWallet_def deleteLotsByWallet_def filter_concat comp_def)
  also have "\<dots> = concat (map (\<lambda>e. if fst e = m then openLotRows w m (snd e) else [])
                      (groupByToken ts))"
    by (rule arg_cong[where f=concat], rule map_cong) (auto simp: filter_openLotRows)
  also have "\<dots> = (case map_of (groupByToken ts) m of None \<Rightarrow> []
                    | Some g \<Rightarrow> openLotRows w m g)"
    using concat_pick[OF distinct_groupByToken, of m "\<lambda>e. openLotRows w m (snd e)" ts]
    by (simp split: option.splits)
  finally show ?thesis by (simp add: map_of_groupByToken)
qed

lemma find_upsertRow:
  "find (\<lambda>p. posWalletAddress p = w \<and> posTokenMint p = m) (upsertRow q rows)
    = (if posWalletAddress q = w \<and> posTokenMint q = m then Some q
       else find (\<lambda>p. posWalletAddress p = w \<and> posTokenMint p = m) rows)"
  by (induction rows) auto

lemma positionRow_keys:
  "posWalletAddress (positionRow p) = posWalletAddress p"
  "posTokenMint (positionRow p) = posTokenMint p"
  "totalBought (positionRow p) = totalBought p"
  "totalSold (positionRow p) = totalSold p"
  by (simp_all add: positionRow_def)

lemma buildPosition_keys:
  "posTokenMint (buildPosition w m g) = m"
  "posWalletAddress (buildPosition w m g) = w"
  by (simp_all add: buildPosition_def Let_def)

lemma positionOf_foldl:
  assumes "distinct (map fst gs)"
  shows "positionOf (loopDb (foldl (fifoTokenStep w) st gs)) w m
     = (case map_of gs m of
          None \<Rightarrow> positionOf (loopDb st) w m
        | Some g \<Rightarrow> Some (positionRow (buildPosition w m g)))"
  using assms
proof (induction gs arbitrary: st)
  case Nil
  show ?case by simp
next
  case (Cons e gs)
  let ?st = "fifoTokenStep w st e"
  have step: "positionOf (loopDb ?st) w m
      = (if fst e = m then Some (positionRow (buildPosition w m (snd e)))
         else positionOf (loopDb st) w m)"
    by (simp add: positionOf_def fifoTokenStep_db find_upsertRow positionRow_keys
        buildPosition_keys)
  have ih: "positionOf (loopDb (foldl (fifoTokenStep w) ?st gs)) w m
     = (case map_of gs m of
          None \<Rightarrow> positionOf (loopDb ?st) w m
        | Some g \<Rightarrow> Some (positionRow (buildPosition w m g)))"
    using Cons.IH[of ?st] Cons.prems by simp
  show ?case
  proof (cases "fst e = m")
    case True
    with Cons.prems have none: "map_of gs m = None" by (auto simp: map_of_eq_None_iff)
    have "map_of (e # gs) m = Some (snd e)" using True by (cases e) simp
    then show ?thesis using ih step True none by simp
  next
    case False
    then have "map_of (e # gs) m = map_of gs m" by (cases e) simp
    then show ?thesis using ih step False by (simp split: option.splits)
  qed
qed

lemma positionOf_calculateFIFOPnL:
  "positionOf (snd (calculateFIFOPnL w ts db)) w m
     = (if ofMint m ts = [] then None else Some (positionRow (buildPosition w m (ofMint m ts))))"
proof -
  have "positionOf (deletePositionsByWallet w (deleteLotsByWallet w db)) w m = None"
    by (simp add: positionOf_def deletePositionsByWallet_def deleteLotsByWallet_def find_None_iff)
  then show ?thesis
    by (simp add: calculateFIFOPnL_def Let_def positionOf_foldl[OF distinct_groupByToken]
        map_of_groupByToken)
qed

lemma netBought_sortByTimestamp: "netBought (sortByTimestamp ts) = netBought ts"
  by (simp add: netBought_def sum_filter_sortByTimestamp)

section \<open>FIFO matching on the partial-matching scenario\<close>

lemmas fifo_run_defs = calculateFIFOPnL_def groupByToken_def groupStep_def mapGet_def Let_def
  fifoTokenStep_def buildPosition_def sortByTimestamp_def fifoStep_def fifoInit_def
  firstTimestamp_def lastTimestamp_def tokenFifo_def openLotRows_def lotRow_def insertLot_def
  upsertPosition_def positionRow_def deleteLotsByWallet_def deletePositionsByWallet_def lotsOf_def

text \<open>
  Claim C2. For the single-mint stream "buy 500 tokens for 1.0 SOL at price 0.002, buy 500
  tokens for 2.0 SOL at price 0.004, sell 600 tokens for 3.0 SOL", in timestamp order,
  \<open>calculateFIFOPnL\<close> matches the sell against the oldest lots first: the matched cost is
  \<open>500 * 0.002 + 100 * 0.004 = 1.4\<close>, nothing of the sell is left unmatched, the realized
  PnL of the position and of the wallet is \<open>1.6\<close>, and exactly one open lot is persisted
  for the pair, the second buy's, with 400 tokens left at price 0.004. This holds for any
  wallet, mint, ids, timestamps in that order and prior content of the store.
\<close>

theorem fifo_partial_matching:
  assumes "timestamp b1 \<le> timestamp b2" and "timestamp b2 \<le> timestamp s"
    and "tokenMint b1 = mint" and "tokenMint b2 = mint" and "tokenMint s = mint"
    and "tradeType b1 = Buy" and "tradeType b2 = Buy" and "tradeType s = Sell"
    and "tokenAmount b1 = 500" and "solAmount b1 = 1" and "pricePerToken b1 = 2 / 1000"
    and "tokenAmount b2 = 500" and "solAmount b2 = 2" and "pricePerToken b2 = 4 / 1000"
    and "tokenAmount s = 600" and "solAmount s = 3"
  shows "snd (matchLots (buyLots (foldl fifoStep fifoInit [b1, b2])) 600 0) = (0, 14 / 10)
    \<and> map realizedPnL (fst (fst (calculateFIFOPnL wallet [b1, b2, s] db))) = [16 / 10]
    \<and> snd (fst (calculateFIFOPnL wallet [b1, b2, s] db)) = 16 / 10
    \<and> lotsOf (snd (calculateFIFOPnL wallet [b1, b2, s] db)) wallet mint =
          [\<lparr> wallet_address = wallet, token_mint = mint, trade_id = tradeId b2,
             lot_timestamp = timestamp b2, lot_amount = 500, remaining_amount = 400,
             price_per_token = 4 / 1000 \<rparr>]"
  using assms by (simp add: fifo_run_defs)

theorem fifo_partial_matching_witness:
  "snd (fst (calculateFIFOPnL ''W''
      [exTrade ''s1'' 100 Buy 500 1, exTrade ''s2'' 200 Buy 500 2, exTrade ''s3'' 300 Sell 600 3]
      emptyStore)) = 16 / 10
   \<and> map remaining_amount (lotsOf (snd (calculateFIFOPnL ''W''
      [exTrade ''s1'' 100 Buy 500 1, exTrade ''s2'' 200 Buy 500 2, exTrade ''s3'' 300 Sell 600 3]
      emptyStore)) ''W'' ''MINT'') = [400]"
  using fifo_partial_matching [of "exTrade ''s1'' 100 Buy 500 1" "exTrade ''s2'' 200 Buy 500 2"
      "exTrade ''s3'' 300 Sell 600 3" "''MINT''" "''W''" emptyStore]
  by (simp add: exTrade_def)

section \<open>Period summary: realized PnL at the lifetime average price\<close>

lemmas summary_run_defs = generatePnLSummary_def tradesInPeriod_def periodStartOf_def
  periodTokenStep_def periodSellsResult_def periodSellStep_def sellProfitAt_def

lemma period_pnl_sum:
  "totalRealizedPnL (fst (generatePnLSummary now w allTrades tf db))
     = sum_list (map (contribution allTrades) (periodSellsOf now tf allTrades))"
proof -
  let ?aps = "fst (fst (calculateFIFOPnL w allTrades db))"
  let ?inP = "tradesInPeriod now tf allTrades"
  let ?c = "\<lambda>t. if tradeType t = Sell then contribution allTrades t else 0"
  have "sum_list (map (groupPnL ?aps) (groupByToken ?inP))
      = sum_list (map (\<lambda>e. sum_list (map ?c (snd e))) (groupByToken ?inP))"
    by (rule arg_cong[where f=sum_list], rule map_cong) (simp_all add: group_of_period(1))
  also have "\<dots> = sum_list (map ?c ?inP)" by (rule sum_over_groups)
  also have "\<dots> = sum_list (map (contribution allTrades) (filter (\<lambda>t. tradeType t = Sell) ?inP))"
    by (rule sum_list_if_filter)
  also have "filter (\<lambda>t. tradeType t = Sell) ?inP = periodSellsOf now tf allTrades"
    by (simp add: tradesInPeriod_filter periodSellsOf_def conj_commute)
  finally show ?thesis by (simp add: summary_fields)
qed

text \<open>
  Claim C4. In \<open>generatePnLSummary\<close> the total realized PnL of the period is the sum, over
  the sells whose timestamp falls inside the requested period, of \<open>sell.solAmount -
  sell.tokenAmount * averageBuyPrice\<close>, with the average buy price of the lifetime
  position of the sell's mint: the position the FIFO run over all trades returns for the
  mint, whose average is the SOL spent on all buys of the mint over the tokens bought,
  whenever they happened. In particular a wallet that bought 1 token for 1 SOL before the 24h window and sold it for
  2 SOL inside the window has a 24h total realized PnL of 1.
\<close>

theorem period_pnl_lifetime_average:
  "totalRealizedPnL (fst (generatePnLSummary now w allTrades tf db))
     = sum_list (map (contribution allTrades) (periodSellsOf now tf allTrades))
   \<and> (ofMint m allTrades \<noteq> [] \<longrightarrow>
        map_option averageBuyPrice
          (find (\<lambda>p. posTokenMint p = m) (fst (fst (calculateFIFOPnL w allTrades db))))
        = Some (lifetimeAverageBuyPrice allTrades m))
   \<and> (tradeType b = Buy \<and> tokenAmount b = 1 \<and> solAmount b = 1
        \<and> timestamp b < now - 24 * 60 * 60
        \<and> tradeType s = Sell \<and> tokenAmount s = 1 \<and> solAmount s = 2
        \<and> timestamp s \<ge> now - 24 * 60 * 60 \<and> tokenMint s = tokenMint b
      \<longrightarrow> totalRealizedPnL (fst (generatePnLSummary now w [b, s] T24h db)) = 1)"
proof -
  have "totalRealizedPnL (fst (generatePnLSummary now w [b, s] T24h db)) = 1"
    if "tradeType b = Buy" "tokenAmount b = 1" "solAmount b = 1"
      "timestamp b < now - 24 * 60 * 60"
      "tradeType s = Sell" "tokenAmount s = 1" "solAmount s = 2"
      "timestamp s \<ge> now - 24 * 60 * 60" "tokenMint s = tokenMint b"
    using that
    by (simp add: period_pnl_sum periodSellsOf_def inRequestedPeriod_def contribution_def
        lifetimeAverageBuyPrice_def ofMint_def)
  moreover have "map_option averageBuyPrice
          (find (\<lambda>p. posTokenMint p = m) (fst (fst (calculateFIFOPnL w allTrades db))))
        = Some (lifetimeAverageBuyPrice allTrades m)" if "ofMint m allTrades \<noteq> []"
    using find_position[OF that, of w db] by (simp add: averageBuyPrice_buildPosition)
  ultimately show ?thesis using period_pnl_sum by blast
qed

theorem period_pnl_lifetime_average_witness:
  "totalRealizedPnL (fst (generatePnLSummary 1700000000 ''W''
      [exTrade ''s1'' 0 Buy 1 1, exTrade ''s2'' 1700000000 Sell 1 2] T24h emptyStore)) = 1
   \<and> periodSellsOf 1700000000 T24h [exTrade ''s1'' 0 Buy 1 1, exTrade ''s2'' 1700000000 Sell 1 2]
       = [exTrade ''s2'' 1700000000 Sell 1 2]"
  using period_pnl_lifetime_average [of 1700000000 "''W''"
      "[exTrade ''s1'' 0 Buy 1 1, exTrade ''s2'' 1700000000 Sell 1 2]" T24h emptyStore
      "''MINT''" "exTrade ''s1'' 0 Buy 1 1" "exTrade ''s2'' 1700000000 Sell 1 2"]
  by (simp add: exTrade_def periodSellsOf_def inRequestedPeriod_def)

section \<open>Period summary: win and loss counts\<close>

text \<open>
  Claim C5 as stated fails: on \<open>mixedTrades\<close> the mint has one profitable and one losing
  sell in the period and a negative period PnL; the summary counts no win and one loss,
  where the claim counts one win and one loss.
\<close>

theorem period_win_count_counterexample:
  "sumWinCount (fst (generatePnLSummary 1000 ''W'' mixedTrades TAll emptyStore)) = 0
   \<and> lossCount (fst (generatePnLSummary 1000 ''W'' mixedTrades TAll emptyStore)) = 1
   \<and> claimedWinCount 1000 TAll mixedTrades = 1
   \<and> claimedLossCount 1000 TAll mixedTrades = 1"
  by (simp add: summary_run_defs fifo_run_defs mixedTrades_def exTrade_def emptyStore_def
      claimedWinCount_def claimedLossCount_def periodSellsOf_def inRequestedPeriod_def
      contribution_def lifetimeAverageBuyPrice_def ofMint_def)

text \<open>
  Claim C5, amended. The summary's win count is the number of sells of the period with a
  positive contribution (at the lifetime average buy price) whose mint has a positive
  period PnL; its loss count is the number of sells of the period with a non-positive
  contribution whose mint has a negative period PnL. Sells of a mint whose period PnL is
  zero are counted on neither side.
\<close>

theorem period_win_loss_counts:
  "sumWinCount (fst (generatePnLSummary now w allTrades tf db))
     = length (filter (\<lambda>t. contribution allTrades t > 0
                          \<and> tokenPeriodPnL now tf allTrades (tokenMint t) > 0)
                (periodSellsOf now tf allTrades))
   \<and> lossCount (fst (generatePnLSummary now w allTrades tf db))
     = length (filter (\<lambda>t. \<not> contribution allTrades t > 0
                          \<and> tokenPeriodPnL now tf allTrades (tokenMint t) < 0)
                (periodSellsOf now tf allTrades))"
proof -
  let ?aps = "fst (fst (calculateFIFOPnL w allTrades db))"
  let ?inP = "tradesInPeriod now tf allTrades"
  let ?W = "\<lambda>t. tradeType t = Sell \<and> contribution allTrades t > 0
                  \<and> tokenPeriodPnL now tf allTrades (tokenMint t) > 0"
  let ?L = "\<lambda>t. tradeType t = Sell \<and> \<not> contribution allTrades t > 0
                  \<and> tokenPeriodPnL now tf allTrades (tokenMint t) < 0"
  have "sum_list (map (\<lambda>e. if groupPnL ?aps e > 0 then groupWins ?aps e else 0) (groupByToken ?inP))
      = sum_list (map (\<lambda>e. sum_list (map (\<lambda>t. if ?W t then 1 else 0) (snd e))) (groupByToken ?inP))"
    by (rule arg_cong[where f=sum_list], rule map_cong) (simp_all add: group_counts(1))
  also have "\<dots> = sum_list (map (\<lambda>t. if ?W t then 1 else 0) ?inP)" by (rule sum_over_groups)
  also have "\<dots> = length (filter ?W ?inP)" by (rule sum_list_indicator)
  finally have w: "sumWinCount (fst (generatePnLSummary now w allTrades tf db)) = length (filter ?W ?inP)"
    by (simp add: summary_fields)
  have "sum_list (map (\<lambda>e. if groupPnL ?aps e < 0
          then length (filter (\<lambda>t. tradeType t = Sell) (snd e)) - groupWins ?aps e else 0)
          (groupByToken ?inP))
      = sum_list (map (\<lambda>e. sum_list (map (\<lambda>t. if ?L t then 1 else 0) (snd e))) (groupByToken ?inP))"
    by (rule arg_cong[where f=sum_list], rule map_cong) (simp_all add: group_counts(2))
  also have "\<dots> = sum_list (map (\<lambda>t. if ?L t then 1 else 0) ?inP)" by (rule sum_over_groups)
  also have "\<dots> = length (filter ?L ?inP)" by (rule sum_list_indicator)
  finally have l: "lossCount (fst (generatePnLSummary now w allTrades tf db)) = length (filter ?L ?inP)"
    by (simp add: summary_fields)
  show ?thesis unfolding w l filter_period_sells by simp
qed

section \<open>FIFO engine: the processing order\<close>

text \<open>
  Claim C6 as stated fails: on \<open>tiedTrades\<close> the sell and the buy have the same timestamp
  and the sell comes first in the list (with the greater signature). The engine processes
  the sell first and reports a realized PnL of 2; processing the buy before the sell, as
  on the reversed list, gives 1.
\<close>

theorem fifo_tie_order_counterexample:
  "sortByTimestamp tiedTrades = tiedTrades
   \<and> map tradeType (sortByTimestamp tiedTrades) = [Sell, Buy]
   \<and> snd (fst (calculateFIFOPnL ''W'' tiedTrades emptyStore)) = 2
   \<and> snd (fst (calculateFIFOPnL ''W'' (rev tiedTrades) emptyStore)) = 1
   \<and> map tradeType (sortByTimestamp (rev tiedTrades)) = [Buy, Sell]
   \<and> accRealizedPnL (tokenFifo tiedTrades) = 2
   \<and> accRealizedPnL (foldl fifoStep fifoInit (rev tiedTrades)) = 1"
  by (simp add: fifo_run_defs tiedTrades_def exTrade_def emptyStore_def)

lemma stableTimestampOrder_unique:
  assumes "stableTimestampOrder ord g"
  shows "sortByTimestamp g = ord"
  unfolding sortByTimestamp_def
proof (rule properties_for_sort_key)
  show "mset ord = mset g" using assms by (simp add: stableTimestampOrder_def)
  show "sorted (map timestamp ord)" using assms by (simp add: stableTimestampOrder_def)
  fix k
  have "filter (\<lambda>t. timestamp t = timestamp k) ord = filter (\<lambda>t. timestamp t = timestamp k) g"
    using assms by (simp add: stableTimestampOrder_def)
  then show "filter (\<lambda>x. timestamp k = timestamp x) ord = filter (\<lambda>x. timestamp k = timestamp x) g"
    by (simp add: eq_commute)
qed

lemma stableTimestampOrder_sort: "stableTimestampOrder (sortByTimestamp g) g"
  by (simp add: stableTimestampOrder_def sortByTimestamp_def sort_key_stable)

lemma stableTimestampOrder_sorted: "sorted (map timestamp g) \<Longrightarrow> stableTimestampOrder g g"
  by (simp add: stableTimestampOrder_def)

lemma loopTotal_foldl:
  "loopTotal (foldl (fifoTokenStep w) st gs) =
     loopTotal st + sum_list (map (\<lambda>e. realizedPnL (buildPosition w (fst e) (snd e))) gs)"
  by (induction gs arbitrary: st) (simp_all add: fifoTokenStep_def Let_def)

lemma total_calculateFIFOPnL:
  "snd (fst (calculateFIFOPnL w ts db)) = sum_list (map realizedPnL (fst (fst (calculateFIFOPnL w ts db))))"
  by (simp add: calculateFIFOPnL_def Let_def loopTotal_foldl loopPositions_foldl comp_def)

text \<open>
  Claim C6, amended. When computing FIFO PnL, the trades of each mint group are processed
  in ascending timestamp order, and trades with equal timestamps keep the order they have
  in the input list (no tie-break by signature or side). For every mint with trades and
  every reordering of its group that is sorted by timestamp and keeps the input order
  within each timestamp, what \<open>calculateFIFOPnL\<close> returns and persists for the mint is
  the result of running the buy/sell loop over that reordering: the position's realized
  PnL, win count, cost basis, proceeds and first and last trade times, the position row
  in the store and the open lots written. The total realized PnL is the sum over the
  positions. Such a reordering always exists, and a group already in non-decreasing
  timestamp order is processed as it stands, so a buy and a sell with equal timestamps
  are processed in their input order.
\<close>

theorem fifo_processing_order:
  assumes "ofMint m trades \<noteq> []" and "stableTimestampOrder ord (ofMint m trades)"
  shows "(\<exists>p. find (\<lambda>p. posTokenMint p = m) (fst (fst (calculateFIFOPnL w trades db))) = Some p
           \<and> positionOf (snd (calculateFIFOPnL w trades db)) w m = Some (positionRow p)
           \<and> realizedPnL p = accRealizedPnL (foldl fifoStep fifoInit ord)
           \<and> winCount p = accWinCount (foldl fifoStep fifoInit ord)
           \<and> totalCostBasis p = accCostBasis (foldl fifoStep fifoInit ord)
           \<and> totalProceeds p = accProceeds (foldl fifoStep fifoInit ord)
           \<and> firstTradeAt p = firstTimestamp ord
           \<and> lastTradeAt p = lastTimestamp ord)
       \<and> lotsOf (snd (calculateFIFOPnL w trades db)) w m
           = map (lotRow w m) (filter (\<lambda>lot. remaining lot > 0) (buyLots (foldl fifoStep fifoInit ord)))
       \<and> snd (fst (calculateFIFOPnL w trades db))
           = sum_list (map realizedPnL (fst (fst (calculateFIFOPnL w trades db))))
       \<and> stableTimestampOrder (sortByTimestamp (ofMint m trades)) (ofMint m trades)
       \<and> (sorted (map timestamp (ofMint m trades)) \<longrightarrow> ord = ofMint m trades)"
proof -
  let ?g = "ofMint m trades"
  have ord: "sortByTimestamp ?g = ord" using assms(2) by (rule stableTimestampOrder_unique)
  have f: "find (\<lambda>p. posTokenMint p = m) (fst (fst (calculateFIFOPnL w trades db)))
      = Some (buildPosition w m ?g)"
    using assms(1) by (rule find_position)
  have p: "positionOf (snd (calculateFIFOPnL w trades db)) w m
      = Some (positionRow (buildPosition w m ?g))"
    using assms(1) by (simp add: positionOf_calculateFIFOPnL)
  have fields: "realizedPnL (buildPosition w m ?g) = accRealizedPnL (foldl fifoStep fifoInit ord)"
    "winCount (buildPosition w m ?g) = accWinCount (foldl fifoStep fifoInit ord)"
    "totalCostBasis (buildPosition w m ?g) = accCostBasis (foldl fifoStep fifoInit ord)"
    "totalProceeds (buildPosition w m ?g) = accProceeds (foldl fifoStep fifoInit ord)"
    "firstTradeAt (buildPosition w m ?g) = firstTimestamp ord"
    "lastTradeAt (buildPosition w m ?g) = lastTimestamp ord"
    by (simp_all add: buildPosition_def Let_def ord)
  have lots: "lotsOf (snd (calculateFIFOPnL w trades db)) w m
      = map (lotRow w m) (filter (\<lambda>lot. remaining lot > 0) (buyLots (foldl fifoStep fifoInit ord)))"
    using assms(1) by (simp add: lotsOf_calculateFIFOPnL openLotRows_def tokenFifo_def ord)
  have same: "ord = ?g" if "sorted (map timestamp ?g)"
    using stableTimestampOrder_unique[OF stableTimestampOrder_sorted[OF that]] ord by simp
  show ?thesis
    using f p fields lots same total_calculateFIFOPnL[of w trades db] stableTimestampOrder_sort[of ?g]
    by simp
qed

theorem fifo_processing_order_witness:
  "stableTimestampOrder tiedTrades (ofMint ''MINT'' tiedTrades)
   \<and> stableTimestampOrder (rev tiedTrades) (ofMint ''MINT'' (rev tiedTrades))
   \<and> map realizedPnL (fst (fst (calculateFIFOPnL ''W'' tiedTrades emptyStore))) = [2]
   \<and> map realizedPnL (fst (fst (calculateFIFOPnL ''W'' (rev tiedTrades) emptyStore))) = [1]
   \<and> accRealizedPnL (foldl fifoStep fifoInit tiedTrades) = 2
   \<and> accRealizedPnL (foldl fifoStep fifoInit (rev tiedTrades)) = 1"
proof -
  have g: "ofMint ''MINT'' tiedTrades = tiedTrades" "ofMint ''MINT'' (rev tiedTrades) = rev tiedTrades"
    by (simp_all add: ofMint_def tiedTrades_def exTrade_def)
  have a: "stableTimestampOrder tiedTrades (ofMint ''MINT'' tiedTrades)"
    unfolding g by (rule stableTimestampOrder_sorted) (simp add: tiedTrades_def exTrade_def)
  have b: "stableTimestampOrder (rev tiedTrades) (ofMint ''MINT'' (rev tiedTrades))"
    unfolding g by (rule stableTimestampOrder_sorted) (simp add: tiedTrades_def exTrade_def)
  have ne: "ofMint ''MINT'' tiedTrades \<noteq> []" "ofMint ''MINT'' (rev tiedTrades) \<noteq> []"
    unfolding g by (simp_all add: tiedTrades_def)
  have v: "accRealizedPnL (foldl fifoStep fifoInit tiedTrades) = 2"
    "accRealizedPnL (foldl fifoStep fifoInit (rev tiedTrades)) = 1"
    by (simp_all add: tiedTrades_def exTrade_def fifoStep_def fifoInit_def Let_def)
  have l: "length (fst (fst (calculateFIFOPnL ''W'' tiedTrades emptyStore))) = 1"
     "length (fst (fst (calculateFIFOPnL ''W'' (rev tiedTrades) emptyStore))) = 1"
    by (simp_all add: positions_calculateFIFOPnL groupByToken_def groupStep_def mapGet_def
        tiedTrades_def exTrade_def)
  from fifo_processing_order[OF ne(1) a, of "''W''" emptyStore] v(1) l(1)
  have x: "map realizedPnL (fst (fst (calculateFIFOPnL ''W'' tiedTrades emptyStore))) = [2]"
    by (cases "fst (fst (calculateFIFOPnL ''W'' tiedTrades emptyStore))") (auto split: if_splits)
  from fifo_processing_order[OF ne(2) b, of "''W''" emptyStore] v(2) l(2)
  have y: "map realizedPnL (fst (fst (calculateFIFOPnL ''W'' (rev tiedTrades) emptyStore))) = [1]"
    by (cases "fst (fst (calculateFIFOPnL ''W'' (rev tiedTrades) emptyStore))") (auto split: if_splits)
  show ?thesis using a b x y v by simp
qed

section \<open>FIFO conservation of open lots\<close>

text \<open>
  Claim C3 as stated fails when a buy follows a sell that found no open lot: on
  \<open>sellFirstTrades\<close> (sell 10, then buy 10) the persisted lots of the pair sum to 10, while
  \<open>total_bought - total_sold\<close> clamped at 0 is 0.
\<close>

theorem fifo_conservation_counterexample:
  "lotSum (snd (calculateFIFOPnL ''W'' sellFirstTrades emptyStore)) ''W'' ''MINT'' = 10
   \<and> map_option (\<lambda>p. max 0 (totalBought p - totalSold p))
        (positionOf (snd (calculateFIFOPnL ''W'' sellFirstTrades emptyStore)) ''W'' ''MINT'') = Some 0"
  by (simp add: lotSum_def positionOf_def fifo_run_defs sellFirstTrades_def exTrade_def emptyStore_def)

text \<open>
  Claim C3, amended. After \<open>calculateFIFOPnL\<close> runs for a wallet over a trade list with
  non-negative token amounts, for every mint: without trades of the mint the wallet has no
  position and no lots for it; otherwise the position row exists, and the sum of
  \<open>remaining_amount\<close> over the persisted open lots equals the running open quantity of the
  mint's trades in processing order (each sell clamped at zero when it is processed, not
  once at the end). That sum is never less than \<open>total_bought - total_sold\<close> clamped at 0,
  and it equals \<open>total_bought - total_sold\<close> whenever no sell exceeds what was bought
  before it.
\<close>

theorem fifo_conservation:
  assumes "\<forall>t\<in>set trades. 0 \<le> tokenAmount t"
  shows "(ofMint m trades = [] \<longrightarrow>
            positionOf (snd (calculateFIFOPnL w trades db)) w m = None
            \<and> lotsOf (snd (calculateFIFOPnL w trades db)) w m = [])
       \<and> (ofMint m trades \<noteq> [] \<longrightarrow>
            (\<exists>p. positionOf (snd (calculateFIFOPnL w trades db)) w m = Some p
               \<and> totalBought p - totalSold p = netBought (ofMint m trades)
               \<and> lotSum (snd (calculateFIFOPnL w trades db)) w m
                   = runningOpen (sortByTimestamp (ofMint m trades))
               \<and> max 0 (totalBought p - totalSold p)
                   \<le> lotSum (snd (calculateFIFOPnL w trades db)) w m
               \<and> (neverOversold (sortByTimestamp (ofMint m trades)) \<longrightarrow>
                    lotSum (snd (calculateFIFOPnL w trades db)) w m
                      = totalBought p - totalSold p)))"
proof -
  let ?g = "ofMint m trades"
  let ?db = "snd (calculateFIFOPnL w trades db)"
  let ?p = "positionRow (buildPosition w m ?g)"
  have nn: "\<forall>t\<in>set ?g. 0 \<le> tokenAmount t" using assms by (simp add: ofMint_def)
  then have nns: "\<forall>t\<in>set (sortByTimestamp ?g). 0 \<le> tokenAmount t"
    by (simp add: sortByTimestamp_def)
  have net: "totalBought ?p - totalSold ?p = netBought ?g"
    by (simp add: positionRow_keys buildPosition_fields netBought_def)
  have ls: "lotSum ?db w m = runningOpen (sortByTimestamp ?g)" if "?g \<noteq> []"
    using that openLotRows_sum[OF nn] by (simp add: lotSum_def lotsOf_calculateFIFOPnL)
  have ge: "max 0 (netBought ?g) \<le> runningOpen (sortByTimestamp ?g)"
    using runningOpen_ge[OF nns] by (simp add: netBought_sortByTimestamp)
  have eq: "runningOpen (sortByTimestamp ?g) = netBought ?g"
    if "neverOversold (sortByTimestamp ?g)"
    using runningOpen_neverOversold[OF that] by (simp add: netBought_sortByTimestamp)
  show ?thesis
  proof (cases "?g = []")
    case True
    then show ?thesis by (simp add: positionOf_calculateFIFOPnL lotsOf_calculateFIFOPnL)
  next
    case False
    have "positionOf ?db w m = Some ?p" using False by (simp add: positionOf_calculateFIFOPnL)
    moreover note net ls[OF False] ge eq
    ultimately show ?thesis using False by auto
  qed
qed

lemma neverOversold_example:
  "neverOversold (sortByTimestamp (ofMint ''MINT''
     [exTrade ''s1'' 100 Buy 500 1, exTrade ''s2'' 200 Buy 500 2, exTrade ''s3'' 300 Sell 600 3]))"
proof -
  let ?b1 = "exTrade ''s1'' 100 Buy 500 1"
  let ?b2 = "exTrade ''s2'' 200 Buy 500 2"
  let ?s = "exTrade ''s3'' 300 Sell 600 3"
  have sorted: "sortByTimestamp (ofMint ''MINT'' [?b1, ?b2, ?s]) = [?b1, ?b2, ?s]"
    by (simp add: exTrade_def ofMint_def sortByTimestamp_def)
  have "0 \<le> netBought (take k [?b1, ?b2, ?s])" if "k \<le> 3" for k
  proof -
    from that consider "k = 0" | "k = 1" | "k = 2" | "k = 3" by arith
    then show ?thesis
      by cases (simp_all add: netBought_def exTrade_def)
  qed
  then show ?thesis unfolding neverOversold_def sorted by simp
qed

theorem fifo_conservation_witness:
  "list_all (\<lambda>t. 0 \<le> tokenAmount t)
     [exTrade ''s1'' 100 Buy 500 1, exTrade ''s2'' 200 Buy 500 2, exTrade ''s3'' 300 Sell 600 3]
   \<and> neverOversold (sortByTimestamp (ofMint ''MINT''
     [exTrade ''s1'' 100 Buy 500 1, exTrade ''s2'' 200 Buy 500 2, exTrade ''s3'' 300 Sell 600 3]))
   \<and> lotSum (snd (calculateFIFOPnL ''W''
       [exTrade ''s1'' 100 Buy 500 1, exTrade ''s2'' 200 Buy 500 2, exTrade ''s3'' 300 Sell 600 3]
       emptyStore)) ''W'' ''MINT'' = 400
   \<and> map_option (\<lambda>p. totalBought p - totalSold p) (positionOf (snd (calculateFIFOPnL ''W''
       [exTrade ''s1'' 100 Buy 500 1, exTrade ''s2'' 200 Buy 500 2, exTrade ''s3'' 300 Sell 600 3]
       emptyStore)) ''W'' ''MINT'') = Some 400"
proof -
  let ?ts = "[exTrade ''s1'' 100 Buy 500 1, exTrade ''s2'' 200 Buy 500 2, exTrade ''s3'' 300 Sell 600 3]"
  have a: "\<forall>t\<in>set ?ts. 0 \<le> tokenAmount t" by (simp add: exTrade_def)
  have ne: "ofMint ''MINT'' ?ts \<noteq> []" by (simp add: ofMint_def exTrade_def)
  have nb: "netBought (ofMint ''MINT'' ?ts) = 400" by (simp add: ofMint_def exTrade_def netBought_def)
  from fifo_conservation[OF a, of "''MINT''" "''W''" emptyStore] ne neverOversold_example nb
  show ?thesis by (auto simp: exTrade_def)
qed

section \<open>Swap parser: which mints a trade can carry\<close>

lemma keys_mapSet_set: "fst ` set (mapSet k v m) = insert k (fst ` set m)"
  by (induction m) auto

lemma partitionStep_target_keys:
  assumes "fst ` set (snd maps) \<subseteq> {k. \<not> isIntermediate k}"
  shows "fst ` set (snd (partitionStep maps entry)) \<subseteq> {k. \<not> isIntermediate k}"
  using assms by (simp add: partitionStep_def Let_def keys_mapSet_set)

lemma foldl_partitionStep_target_keys:
  assumes "fst ` set (snd maps) \<subseteq> {k. \<not> isIntermediate k}"
  shows "fst ` set (snd (foldl partitionStep maps entries)) \<subseteq> {k. \<not> isIntermediate k}"
  using assms
proof (induction entries arbitrary: maps)
  case Nil
  then show ?case by simp
next
  case (Cons e es)
  show ?case using Cons.IH[OF partitionStep_target_keys[OF Cons.prems]] by simp
qed

lemma createTrade_mint: "tokenMint (createTrade tx w ty mint a s) = mint"
  by (simp add: createTrade_def)

lemma parseFromTransfers_targets_only:
  assumes "t \<in> set (parseFromTransfers tx w)"
  shows "\<not> isIntermediate (tokenMint t)"
proof -
  let ?solDelta0 = "foldl (nativeStep w) 0 (nativeTransfers tx)"
  let ?tokenDeltas0 = "foldl (tokenStep w) [] (tokenTransfers tx)"
  let ?tokenDeltas = "mapDelete NATIVE_SOL_MINT (mapDelete WSOL_MINT ?tokenDeltas0)"
  let ?targets = "snd (foldl partitionStep ([], []) ?tokenDeltas)"
  have keys: "fst ` set ?targets \<subseteq> {k. \<not> isIntermediate k}"
    by (rule foldl_partitionStep_target_keys) simp
  have "tokenMint t \<in> fst ` set ?targets"
    using assms unfolding parseFromTransfers_def Let_def
    by (auto simp: createTrade_mint split: if_splits) force+
  with keys show ?thesis by blast
qed

lemma sol_intermediate: "isIntermediate NATIVE_SOL_MINT"
  by (simp add: isIntermediate_def INTERMEDIATE_TOKENS_def)

lemma tbcStep_keys:
  assumes "fst ` set m \<subseteq> {k. \<not> isSOLOrWSol k}"
  shows "fst ` set (tbcStep w m tbc) \<subseteq> {k. \<not> isSOLOrWSol k}"
  using assms by (simp add: tbcStep_def Let_def keys_mapSet_set)

lemma foldl_tbcStep_keys:
  assumes "fst ` set m \<subseteq> {k. \<not> isSOLOrWSol k}"
  shows "fst ` set (foldl (tbcStep w) m tbcs) \<subseteq> {k. \<not> isSOLOrWSol k}"
  using assms
proof (induction tbcs arbitrary: m)
  case Nil
  then show ?case by simp
next
  case (Cons c cs)
  show ?case using Cons.IH[OF tbcStep_keys[OF Cons.prems]] by simp
qed

lemma foldl_accounts_keys:
  assumes "fst ` set m \<subseteq> {k. \<not> isSOLOrWSol k}"
  shows "fst ` set (foldl (\<lambda>m acc. foldl (tbcStep w) m (tokenBalanceChanges acc)) m accs)
           \<subseteq> {k. \<not> isSOLOrWSol k}"
  using assms
proof (induction accs arbitrary: m)
  case Nil
  then show ?case by simp
next
  case (Cons a as)
  show ?case using Cons.IH[OF foldl_tbcStep_keys[OF Cons.prems]] by simp
qed

lemma parseFromBalanceChanges_no_sol:
  assumes "t \<in> set (parseFromBalanceChanges tx w)"
  shows "\<not> isSOLOrWSol (tokenMint t)"
proof -
  let ?changes = "foldl (\<lambda>m acc. foldl (tbcStep w) m (tokenBalanceChanges acc)) [] (accountData tx)"
  have keys: "fst ` set ?changes \<subseteq> {k. \<not> isSOLOrWSol k}"
    by (rule foldl_accounts_keys) simp
  have "tokenMint t \<in> fst ` set ?changes"
    using assms unfolding parseFromBalanceChanges_def Let_def
    by (auto simp: createTrade_mint split: if_splits) force+
  with keys show ?thesis by blast
qed

lemma swapTrades_no_sol:
  "t \<in> set (swapTrades tx w ty s toks) \<Longrightarrow> \<not> isSOLOrWSol (tokenMint t)"
  by (auto simp: swapTrades_def Let_def createTrade_mint split: if_splits)

lemma parseFromSwapEvent_no_sol:
  assumes "t \<in> set (parseFromSwapEvent tx w)"
  shows "\<not> isSOLOrWSol (tokenMint t)"
  using assms
  by (auto simp: parseFromSwapEvent_def split: option.splits if_splits dest: swapTrades_no_sol)

lemma parser_never_sol:
  assumes "t \<in> set (parseEnhancedTransaction tx w)"
  shows "tokenMint t \<noteq> NATIVE_SOL_MINT \<and> tokenMint t \<noteq> WSOL_MINT"
proof -
  have i: "isIntermediate WSOL_MINT"
    using sol_intermediate by (simp add: WSOL_MINT_def NATIVE_SOL_MINT_def)
  from assms consider "t \<in> set (parseFromTransfers tx w)"
    | "t \<in> set (parseFromBalanceChanges tx w)" | "t \<in> set (parseFromSwapEvent tx w)"
    by (auto simp: parseEnhancedTransaction_def Let_def split: if_splits option.splits)
  then show ?thesis
  proof cases
    case 1
    from parseFromTransfers_targets_only[OF 1] sol_intermediate i show ?thesis by auto
  next
    case 2
    from parseFromBalanceChanges_no_sol[OF 2] show ?thesis by (auto simp: isSOLOrWSol_def)
  next
    case 3
    from parseFromSwapEvent_no_sol[OF 3] show ?thesis by (auto simp: isSOLOrWSol_def)
  qed
qed

text \<open>
  What does hold for every record and wallet: the token-transfer strategy never yields a
  trade for an intermediate mint (lemma \<open>parseFromTransfers_targets_only\<close>), and no
  strategy yields a trade for native or wrapped SOL (lemma \<open>parser_never_sol\<close>).
\<close>

lemma mints_distinct:
  "USDC_MINT \<noteq> WSOL_MINT" "USDC_MINT \<noteq> NATIVE_SOL_MINT"
  "USDC_MINT \<noteq> ''11111111111111111111111111111111''"
  by (simp_all add: USDC_MINT_def WSOL_MINT_def NATIVE_SOL_MINT_def)

lemma usdc_intermediate: "isIntermediate USDC_MINT"
  by (simp add: isIntermediate_def INTERMEDIATE_TOKENS_def)

lemma usdcSwap_transfers_empty: "parseFromTransfers usdcSwapTx ''W'' = []"
  by (simp add: parseFromTransfers_def usdcSwapTx_def nativeStep_def tokenStep_def getOrZero_def
      mapGet_def mapDelete_def partitionStep_def usdc_intermediate mints_distinct Let_def
      LAMPORTS_PER_SOL_def)

text \<open>
  Claim C1 says that no trade returned by \<open>parseEnhancedTransaction\<close> carries a mint of
  the intermediate set, whichever strategy produced it. The code does not keep this: for
  the swap of 1 SOL for 150 USDC the token-transfer strategy yields nothing (USDC is an
  intermediate token), the parser falls back to the balance-change strategy, which skips
  only native and wrapped SOL, and returns a buy of 150 USDC for 1 SOL. The swap-event
  strategy does the same on a record that carries only the event.
\<close>

theorem parser_intermediate_mint:
  "map tokenMint (parseEnhancedTransaction usdcSwapTx ''W'') = [USDC_MINT]
   \<and> map tradeType (parseEnhancedTransaction usdcSwapTx ''W'') = [Buy]
   \<and> map tokenAmount (parseEnhancedTransaction usdcSwapTx ''W'') = [150]
   \<and> map solAmount (parseEnhancedTransaction usdcSwapTx ''W'') = [1]
   \<and> parseFromTransfers usdcSwapTx ''W'' = []
   \<and> map tokenMint (parseEnhancedTransaction usdcSwapEventTx ''W'') = [USDC_MINT]
   \<and> isIntermediate USDC_MINT"
proof -
  have b: "parseFromBalanceChanges usdcSwapTx ''W'' =
      [createTrade usdcSwapTx ''W'' Buy USDC_MINT 150 1]"
    by (simp add: parseFromBalanceChanges_def usdcSwapTx_def solChangeStep_def tbcStep_def
        isSOLOrWSol_def mints_distinct parseTokenAmount_def getOrZero_def mapGet_def
        LAMPORTS_PER_SOL_def Let_def)
  have e: "hasTransactionError usdcSwapTx = False" "hasTransactionError usdcSwapEventTx = False"
    by (simp_all add: hasTransactionError_def usdcSwapTx_def usdcSwapEventTx_def)
  have c: "parseFromTransfers usdcSwapEventTx ''W'' = []"
     "parseFromBalanceChanges usdcSwapEventTx ''W'' = []"
    by (simp_all add: parseFromTransfers_def parseFromBalanceChanges_def usdcSwapEventTx_def
        getOrZero_def mapGet_def mapDelete_def Let_def)
  have d: "parseFromSwapEvent usdcSwapEventTx ''W'' =
      [createTrade usdcSwapEventTx ''W'' Buy USDC_MINT 150 1]"
    by (simp add: parseFromSwapEvent_def usdcSwapEventTx_def swapTrades_def isSOLOrWSol_def
        mints_distinct parseTokenAmount_def LAMPORTS_PER_SOL_def Let_def)
  have s: "swap usdcSwapEventTx \<noteq> None" by (simp add: usdcSwapEventTx_def)
  show ?thesis
    using s by (auto simp: parseEnhancedTransaction_def usdcSwap_transfers_empty b c d e createTrade_def usdc_intermediate Let_def)
qed

section \<open>Follow simulator: followability and quick dumps\<close>













section \<open>Follow simulator: the cached score\<close>

lemma find_upsertScoreRow:
  "find (\<lambda>r. fs_wallet_address r = fs_wallet_address row) (upsertScoreRow row rows) = Some row"
  by (induction rows) auto

text \<open>Right after \<open>scoreWallet\<close>, the cached score of the wallet exists and has no breakdown.\<close>

lemma getFollowScore_after_scoreWallet:
  "map_option tokenBreakdown
     (getFollowScore (snd (scoreWallet now wallet delay model db)) wallet) = Some []"
proof -
  obtain row rows where s: "followScoresTable (snd (scoreWallet now wallet delay model db))
      = upsertScoreRow row rows" and w: "fs_wallet_address row = wallet"
    by (simp add: scoreWallet_def Let_def)
  have "getScore (snd (scoreWallet now wallet delay model db)) wallet = Some row"
    unfolding getScore_def s using find_upsertScoreRow[of row rows] by (simp add: w)
  then show ?thesis by (simp add: getFollowScore_def)
qed

lemma find_None_image: "(find (\<lambda>r. f r = k) rows = None) = (k \<notin> f ` set rows)"
  by (induction rows) auto

text \<open>
  Claim C10. \<open>getFollowScore\<close> returns null exactly when the score table holds no row for
  the wallet address, and any result it returns has an empty \<open>tokenBreakdown\<close>: the
  per-token breakdown is not stored and comes only from a fresh simulation.
\<close>

theorem getFollowScore_cached:
  "(getFollowScore db wallet = None) = (wallet \<notin> fs_wallet_address ` set (followScoresTable db))
   \<and> (\<forall>res. getFollowScore db wallet = Some res \<longrightarrow> tokenBreakdown res = [])"
proof -
  have "(getScore db wallet = None) = (wallet \<notin> fs_wallet_address ` set (followScoresTable db))"
    unfolding getScore_def by (rule find_None_image)
  then show ?thesis
    by (cases "getScore db wallet") (auto simp: getFollowScore_def)
qed

theorem getFollowScore_cached_witness:
  "getFollowScore emptyStore ''W'' = None
   \<and> tokenBreakdown (fst (scoreWallet 1700000000 ''W'' 5 Moderate quickDumpStore)) \<noteq> []
   \<and> map_option tokenBreakdown
       (getFollowScore (snd (scoreWallet 1700000000 ''W'' 5 Moderate quickDumpStore)) ''W'')
      = Some []"
proof -
  have a: "getFollowScore emptyStore ''W'' = None"
    using getFollowScore_cached [of emptyStore "''W''"] by (simp add: emptyStore_def)
  have b: "tokenBreakdown (fst (scoreWallet 1700000000 ''W'' 5 Moderate quickDumpStore)) \<noteq> []"
    by (simp add: scoreWallet_def simulateFollowReturns_def getTradesByWallet_def
        quickDumpStore_def emptyStore_def exTrade_def groupByToken_def groupStep_def mapGet_def
        simTokenStep_def sortByTimestamp_def simInit_def Let_def)
  obtain res where r: "getFollowScore
      (snd (scoreWallet 1700000000 ''W'' 5 Moderate quickDumpStore)) ''W'' = Some res"
    using getFollowScore_after_scoreWallet [of 1700000000 "''W''" 5 Moderate quickDumpStore]
    by auto
  have "tokenBreakdown res = []"
    using getFollowScore_cached
      [of "snd (scoreWallet 1700000000 ''W'' 5 Moderate quickDumpStore)" "''W''"] r
    by blast
  then show ?thesis using a b r by simp
qed

section \<open>Signature paging: the cap of a run\<close>

text \<open>
  The loop keeps the count of gathered signatures a multiple of the page size for as long
  as it goes on, so a cap that is itself a multiple of the page size is never exceeded.
\<close>

lemma signaturesLoop_bound:
  assumes "honoursLimit rpc"
    and "1000 dvd maxSignatures"
    and "1000 dvd length acc" and "length acc \<le> maxSignatures"
    and "signaturesLoop rpc address until maxSignatures n lastSig acc = Inr sigs"
  shows "length sigs \<le> maxSignatures"
  using assms
proof (induction rpc address until maxSignatures n lastSig acc rule: signaturesLoop.induct)
  case (1 rpc address until maxSignatures n lastSignature allSignatures)
  note run = "1.prems"(5)
  show ?case
  proof (cases "length allSignatures < maxSignatures")
    case False
    with "1.prems" show ?thesis
      by (simp add: signaturesLoop.simps[of _ _ _ _ _ _ allSignatures])
  next
    case True
    have room: "length allSignatures + 1000 \<le> maxSignatures"
      using True "1.prems"(2,3) by (auto simp: dvd_def)
    show ?thesis
    proof (cases "getSignaturesForAddress rpc n address (Some 1000) lastSignature until")
      case (Inl e)
      with run True show ?thesis
        by (simp add: signaturesLoop.simps[of _ _ _ _ _ _ allSignatures])
    next
      case (Inr batch)
      have len: "length batch \<le> 1000"
        using Inr "1.prems"(1) by (auto simp: honoursLimit_def getSignaturesForAddress_def)
      show ?thesis
      proof (cases "batch = []")
        case empty: True
        with run True Inr "1.prems"(4) show ?thesis
          by (simp add: signaturesLoop.simps[of _ _ _ _ _ _ allSignatures])
      next
        case nonempty: False
        show ?thesis
        proof (cases "untilIndexOf until batch")
          case (Some untilIndex)
          with run True Inr nonempty have "sigs = allSignatures @ take untilIndex batch"
            by (simp add: signaturesLoop.simps[of _ _ _ _ _ _ allSignatures])
          with len room show ?thesis by simp
        next
          case None
          show ?thesis
          proof (cases "length batch < 1000")
            case short: True
            with run True Inr nonempty None have "sigs = allSignatures @ batch"
              by (simp add: signaturesLoop.simps[of _ _ _ _ _ _ allSignatures])
            with len room show ?thesis by simp
          next
            case full: False
            with len have l1000: "length batch = 1000" by simp
            from run True Inr nonempty None full
            have rec: "signaturesLoop rpc address until maxSignatures (Suc n)
                        (Some (sigSignature (last batch))) (allSignatures @ batch) = Inr sigs"
              by (simp add: signaturesLoop.simps[of _ _ _ _ _ _ allSignatures])
            have d: "1000 dvd length (allSignatures @ batch)"
              using "1.prems"(3) l1000 by simp
            have b: "length (allSignatures @ batch) \<le> maxSignatures"
              using room l1000 by simp
            show ?thesis
              by (rule "1.IH"[OF True Inr nonempty None full "1.prems"(1,2) d b rec])
          qed
        qed
      qed
    qed
  qed
qed

text \<open>The loop always ends; with a provider that never fails it ends with a list.\<close>

lemma signaturesLoop_returns:
  assumes "\<forall>n address limit before until. \<exists>batch. rpc n address limit before until = Inr batch"
  shows "\<exists>sigs. signaturesLoop rpc address until maxSignatures n lastSig acc = Inr sigs"
  using assms
proof (induction rpc address until maxSignatures n lastSig acc rule: signaturesLoop.induct)
  case (1 rpc address until maxSignatures n lastSignature allSignatures)
  obtain batch where b:
    "getSignaturesForAddress rpc n address (Some 1000) lastSignature until = Inr batch"
    using "1.prems" unfolding getSignaturesForAddress_def by metis
  show ?case
    using "1.IH"[OF _ b] "1.prems" b
    by (subst signaturesLoop.simps) (auto split: option.splits)
qed

text \<open>The loop of the code and the paging relation describe the same runs.\<close>

lemma findIndex_None: "(findIndex P xs = None) = (\<forall>x\<in>set xs. \<not> P x)"
  by (induction xs) auto

lemma findIndex_take: "findIndex P xs = Some i \<Longrightarrow> take i xs = takeWhile (\<lambda>x. \<not> P x) xs"
  by (induction xs arbitrary: i) (auto split: if_splits)

lemma untilIndexOf_None: "(untilIndexOf until page = None) = (\<not> stopsAt until page)"
  by (cases until) (auto simp: untilIndexOf_def stopsAt_def findIndex_None)

lemma untilIndexOf_Some:
  assumes "untilIndexOf until page = Some i"
  shows "take i page = entriesBefore until page"
proof -
  from assms obtain u where u: "until = Some u" "u \<noteq> []"
    and f: "findIndex (\<lambda>s. sigSignature s = u) page = Some i"
    by (cases until) (auto simp: untilIndexOf_def split: if_splits)
  have "take i page = takeWhile (\<lambda>s. sigSignature s \<noteq> u) page" using f by (rule findIndex_take)
  then show ?thesis by (simp add: entriesBefore_def u)
qed

lemma signaturesLoop_paged:
  "pagedFetch rpc address until cap n before acc (signaturesLoop rpc address until cap n before acc)"
proof (induction rpc address until cap n before acc rule: signaturesLoop.induct)
  case (1 rpc address until cap n before acc)
  show ?case
  proof (cases "length acc < cap")
    case False
    then show ?thesis
      by (subst signaturesLoop.simps) (simp add: pagedFetch.capReached)
  next
    case True
    show ?thesis
    proof (cases "rpc n address 1000 before until")
      case (Inl e)
      with True show ?thesis
        by (subst signaturesLoop.simps)
          (simp add: getSignaturesForAddress_def pagedFetch.providerFails)
    next
      case (Inr page)
      then have g: "getSignaturesForAddress rpc n address (Some 1000) before until = Inr page"
        by (simp add: getSignaturesForAddress_def)
      show ?thesis
      proof (cases "page = []")
        case empty: True
        with True Inr g show ?thesis
          by (subst signaturesLoop.simps) (simp add: pagedFetch.emptyPage)
      next
        case nonempty: False
        show ?thesis
        proof (cases "untilIndexOf until page")
          case (Some i)
          then have s: "stopsAt until page" using untilIndexOf_None[of until page] by simp
          have "signaturesLoop rpc address until cap n before acc
              = Inr (acc @ entriesBefore until page)"
            using True g nonempty Some untilIndexOf_Some[OF Some]
            by (subst signaturesLoop.simps) simp
          moreover have "pagedFetch rpc address until cap n before acc
              (Inr (acc @ entriesBefore until page))"
            by (rule pagedFetch.cursorFound[where page=page]) (simp_all add: True Inr nonempty s)
          ultimately show ?thesis by simp
        next
          case None
          then have s: "\<not> stopsAt until page" by (simp add: untilIndexOf_None)
          show ?thesis
          proof (cases "length page < 1000")
            case short: True
            have "signaturesLoop rpc address until cap n before acc = Inr (acc @ page)"
              using True g nonempty None short by (subst signaturesLoop.simps) simp
            moreover have "pagedFetch rpc address until cap n before acc (Inr (acc @ page))"
              by (rule pagedFetch.shortPage[where page=page])
                (simp_all add: True Inr nonempty s short)
            ultimately show ?thesis by simp
          next
            case full: False
            have eq: "signaturesLoop rpc address until cap n before acc
                = signaturesLoop rpc address until cap (Suc n)
                    (Some (sigSignature (last page))) (acc @ page)"
              using True g nonempty None full by (subst signaturesLoop.simps) simp
            have len: "1000 \<le> length page" using full by simp
            have "pagedFetch rpc address until cap n before acc
                (signaturesLoop rpc address until cap (Suc n)
                    (Some (sigSignature (last page))) (acc @ page))"
              by (rule pagedFetch.nextPage[where page=page], rule True, rule Inr, rule nonempty,
                  rule s, rule len, rule "1.IH"[OF True g nonempty None full])
            then show ?thesis by (simp only: eq)
          qed
        qed
      qed
    qed
  qed
qed

lemma pagedFetch_unique:
  assumes "pagedFetch rpc address until cap n before acc r"
  shows "signaturesLoop rpc address until cap n before acc = r"
  using assms
proof (induction rule: pagedFetch.induct)
  case (capReached acc n before)
  then show ?case by (subst signaturesLoop.simps) simp
next
  case (providerFails acc n before e)
  then show ?case by (subst signaturesLoop.simps) (simp add: getSignaturesForAddress_def)
next
  case (emptyPage acc n before)
  then show ?case by (subst signaturesLoop.simps) (simp add: getSignaturesForAddress_def)
next
  case (cursorFound acc n before page)
  from cursorFound(4) obtain i where i: "untilIndexOf until page = Some i"
    using untilIndexOf_None[of until page] by (cases "untilIndexOf until page") auto
  with cursorFound untilIndexOf_Some[OF i] show ?case
    by (subst signaturesLoop.simps) (simp add: getSignaturesForAddress_def)
next
  case (shortPage acc n before page)
  then show ?case
    by (subst signaturesLoop.simps) (simp add: getSignaturesForAddress_def untilIndexOf_None[symmetric])
next
  case (nextPage acc n before page r)
  then show ?case
    by (subst signaturesLoop.simps) (simp add: getSignaturesForAddress_def untilIndexOf_None[symmetric])
qed


text \<open>
  Claim C8. The fetch of a sync run is exactly the paging described: it asks the provider
  for pages of 1000, each request carrying the stored last signature and, after the
  first, the signature of the last entry of the page before; it stops at an empty page,
  at a short page, at the page holding the stored last signature (keeping only the
  entries ahead of it) and at the cap of 5000 (a failure of the provider ends the run
  with that failure). With a provider that never answers with more entries than the
  limit asked for, the list of new signatures of one run has at most 5000 entries.
\<close>

theorem sync_signature_cap:
  "(pagedFetch rpc walletAddr lastSignature 5000 0 None [] r
      \<longleftrightarrow> r = syncFetchSignatures rpc walletAddr lastSignature)
   \<and> (honoursLimit rpc \<longrightarrow>
        (\<forall>sigs. syncFetchSignatures rpc walletAddr lastSignature = Inr sigs
                  \<longrightarrow> length sigs \<le> 5000))"
proof -
  have f: "syncFetchSignatures rpc walletAddr lastSignature
      = signaturesLoop rpc walletAddr lastSignature 5000 0 None []"
    by (simp add: syncFetchSignatures_def getAllSignaturesForAddress_def)
  have a: "pagedFetch rpc walletAddr lastSignature 5000 0 None [] r
      \<longleftrightarrow> r = syncFetchSignatures rpc walletAddr lastSignature"
    unfolding f
    using pagedFetch_unique[of rpc walletAddr lastSignature 5000 0 None "[]" r]
      signaturesLoop_paged[of rpc walletAddr lastSignature 5000 0 None "[]"]
    by auto
  have b: "length sigs \<le> 5000" if "honoursLimit rpc"
    "syncFetchSignatures rpc walletAddr lastSignature = Inr sigs" for sigs
    using signaturesLoop_bound[of rpc 5000 "[]" walletAddr lastSignature 0 None sigs] that
    by (simp add: f del: signaturesLoop.simps)
  show ?thesis using a b by blast
qed

theorem sync_signature_cap_witness:
  "honoursLimit fullPagesRpc
   \<and> syncFetchSignatures fullPagesRpc ''W'' None = Inr (replicate 5000 exSig)
   \<and> length (replicate 5000 exSig) \<le> 5000
   \<and> syncFetchSignatures cursorRpc ''W'' None = Inr (replicate 1000 exSig)
   \<and> syncFetchSignatures storedCursorRpc ''W'' (Some ''b'') = Inr [sigNamed ''a'']
   \<and> pagedFetch storedCursorRpc ''W'' (Some ''b'') 5000 0 None [] (Inr [sigNamed ''a''])"
proof -
  have h: "honoursLimit fullPagesRpc"
    by (simp add: honoursLimit_def fullPagesRpc_def)
  have r: "syncFetchSignatures fullPagesRpc ''W'' None = Inr (replicate 5000 exSig)"
    by (simp add: syncFetchSignatures_def getAllSignaturesForAddress_def signaturesLoop.simps
        getSignaturesForAddress_def fullPagesRpc_def untilIndexOf_def replicate_add[symmetric])
  have c: "syncFetchSignatures cursorRpc ''W'' None = Inr (replicate 1000 exSig)"
    by (simp add: syncFetchSignatures_def getAllSignaturesForAddress_def signaturesLoop.simps
        getSignaturesForAddress_def cursorRpc_def untilIndexOf_def exSig_def)
  have s: "syncFetchSignatures storedCursorRpc ''W'' (Some ''b'') = Inr [sigNamed ''a'']"
    by (simp add: syncFetchSignatures_def getAllSignaturesForAddress_def signaturesLoop.simps
        getSignaturesForAddress_def storedCursorRpc_def untilIndexOf_def sigNamed_def)
  have p: "pagedFetch storedCursorRpc ''W'' (Some ''b'') 5000 0 None [] (Inr [sigNamed ''a''])"
    using sync_signature_cap[of storedCursorRpc "''W''" "Some ''b''" "Inr [sigNamed ''a'']"] s
    by simp
  have "length (replicate 5000 exSig) \<le> 5000"
    using sync_signature_cap[of fullPagesRpc "''W''" None "Inr []"] h r by blast
  then show ?thesis using h r c s p by simp
qed


end
